theory Spec2Isabelle
  imports Complex_Main
begin

section \<open>Data model (src/types.ts)\<close>

text \<open>
  The node graph of the editor, as \<^verbatim>\<open>src/types.ts\<close> declares it. A TypeScript
  \<^verbatim>\<open>number\<close> is modelled as a real (coordinates, durations) or as a natural number
  (millisecond timestamps, counters); an optional property \<^verbatim>\<open>p?: T\<close> is a
  \<open>T option\<close>, \<open>None\<close> standing for \<^verbatim>\<open>undefined\<close>. Record fields are global
  names in HOL, so the fields \<^verbatim>\<open>id\<close>, \<^verbatim>\<open>type\<close>, \<^verbatim>\<open>prompt\<close>, \<^verbatim>\<open>x\<close>,
  \<^verbatim>\<open>y\<close> carry a prefix.
\<close>

datatype AspectRatio = SQUARE | STANDARD | PORTRAIT | WIDE | MOBILE | CINEMA

datatype GenerationMode = GRID_2x2 | GRID_3x3 | GRID_4x4

datatype MediaType = Image | Video | Audio

record CanvasItem =
  item_id :: string
  item_url :: string
  item_type :: MediaType
  item_prompt :: "string option"
  item_aspectRatio :: "string option"
  item_timestamp :: nat
  item_fullGridUrl :: "string option"
  item_duration :: "real option"
  item_fileName :: "string option"

datatype StoryboardType =
  Generation | Assets | Agent | Music | MusicAnalysis | TextResult | TextNode
  | MvAttributeSettings | MvStoryboard | Timeline | VideoNode

record MVScene =
  timeCode :: string
  rhythm :: string
  visualDescription :: string
  midjourneyPrompt :: string
  cameraMovement :: string
  imageUrl :: "string option"

datatype ClipStatus = Pending | Generating | Done | Error

record TimelineClip =
  clip_id :: string
  sceneId :: string
  videoUrl :: string
  thumbUrl :: string
  duration :: real
  clip_prompt :: string
  status :: ClipStatus

text \<open>
  \<^verbatim>\<open>NodeConfig\<close>. The code builds configs by spreading a possibly absent object
  (\<^verbatim>\<open>{ ...group.config, timelineAudioUrl: u }\<close>), so at run time every property may
  be missing: all fields are options, and \<open>emptyConfig\<close> is the object \<^verbatim>\<open>{}\<close>.

  The clip array of a timeline is the one array held in the state that is mutated in
  place (\<^verbatim>\<open>push\<close> in \<^verbatim>\<open>handleImportVideosToTimeline\<close> and
  \<^verbatim>\<open>handleGenerateTimeline\<close>), while node objects, snapshots and copies go on
  sharing it. \<open>timelineClips\<close> is therefore a
  reference: the address of the array in the store \<open>heap\<close> of the application state.
  Every other array is only ever rebuilt (\<^verbatim>\<open>map\<close>, \<^verbatim>\<open>filter\<close>, spread) and is a list.
\<close>

record NodeConfig =
  cfg_prompt :: "string option"
  cfg_mode :: "GenerationMode option"
  cfg_aspectRatio :: "AspectRatio option"
  recommendations :: "string list option"
  isAnalyzing :: "bool option"
  cameraMove :: "string option"
  lightingStyle :: "string option"
  textResult :: "string option"
  customSystemPrompt :: "string option"
  mvStyleImageUrl :: "string option"
  mvProtagonistImageUrl :: "string option"
  mvScenes :: "MVScene list option"
  timelineAudioUrl :: "string option"
  timelineClips :: "nat option"

definition emptyConfig :: NodeConfig where
  "emptyConfig = \<lparr> cfg_prompt = None, cfg_mode = None, cfg_aspectRatio = None,
     recommendations = None, isAnalyzing = None, cameraMove = None, lightingStyle = None,
     textResult = None, customSystemPrompt = None, mvStyleImageUrl = None,
     mvProtagonistImageUrl = None, mvScenes = None, timelineAudioUrl = None,
     timelineClips = None \<rparr>"

record StoryboardGroup =
  sg_id :: string
  sg_type :: StoryboardType
  title :: string
  pos_x :: real
  pos_y :: real
  width :: "real option"
  height :: "real option"
  items :: "CanvasItem list"
  timestamp :: nat
  connections :: "string list"
  inputs :: "string list option"
  config :: "NodeConfig option"
  displayMode :: "GenerationMode option"

section \<open>Application state (src/App.tsx, component App)\<close>

text \<open>
  The \<^verbatim>\<open>useState\<close> slots of \<^verbatim>\<open>App\<close> that the graph operations read or write, the
  store of clip arrays, and the number of identifiers drawn so far from
  \<^verbatim>\<open>crypto.randomUUID()\<close>. \<^verbatim>\<open>generatingAgents\<close> is a JavaScript \<^verbatim>\<open>Set\<close>: a list
  without repetition, in insertion order.
\<close>

record app =
  storyboards :: "StoryboardGroup list"
  history :: "StoryboardGroup list list"
  clipboard :: "StoryboardGroup option"
  generatingAgents :: "string list"
  selectedNodeId :: "string option"
  editorNodeId :: "string option"
  error :: "string option"
  heap :: "TimelineClip list list"
  uuid_ctr :: nat

text \<open>\<^verbatim>\<open>group.inputs || []\<close>: an absent inbound list reads as the empty list.\<close>

definition inputsOrEmpty :: "StoryboardGroup \<Rightarrow> string list" where
  "inputsOrEmpty g = (case inputs g of None \<Rightarrow> [] | Some i \<Rightarrow> i)"

text \<open>\<^verbatim>\<open>{ ...group.config }\<close>: spreading an absent config gives the empty object.\<close>

definition configOrEmpty :: "StoryboardGroup \<Rightarrow> NodeConfig" where
  "configOrEmpty g = (case config g of None \<Rightarrow> emptyConfig | Some c \<Rightarrow> c)"

text \<open>\<^verbatim>\<open>storyboards.find(n => n.id === nodeId)\<close>: the first node with that id.\<close>

definition findNode :: "string \<Rightarrow> StoryboardGroup list \<Rightarrow> StoryboardGroup option" where
  "findNode nodeId sb = find (\<lambda>n. sg_id n = nodeId) sb"

subsection \<open>History and undo\<close>

text \<open>
  \<^verbatim>\<open>saveHistory\<close> (App.tsx:101): append the current node collection, and drop the
  oldest entry when the stack has grown past 20.
\<close>

definition saveHistory :: "app \<Rightarrow> app" where
  "saveHistory st =
     (let newHistory = history st @ [storyboards st]
      in st\<lparr>history := (if length newHistory > 20 then tl newHistory else newHistory)\<rparr>)"

text \<open>
  \<^verbatim>\<open>handleUndo\<close> (App.tsx:109): with an empty stack the updater returns \<^verbatim>\<open>prev\<close>
  and sets nothing; otherwise the last snapshot becomes the node collection and is
  popped.
\<close>

definition handleUndo :: "app \<Rightarrow> app" where
  "handleUndo st =
     (if length (history st) = 0 then st
      else st\<lparr>storyboards := last (history st), history := butlast (history st)\<rparr>)"

subsection \<open>Fresh identifiers\<close>

text \<open>
  \<^verbatim>\<open>crypto.randomUUID()\<close> is an effect: the model draws the identifiers from a supply
  \<open>uuid :: nat \<Rightarrow> string\<close>, a parameter of every operation that needs one, and counts
  the draws in the state. \<^verbatim>\<open>Date.now()\<close> is read as the parameter \<open>now\<close> of the
  handler.
\<close>

definition randomUUID :: "(nat \<Rightarrow> string) \<Rightarrow> app \<Rightarrow> string \<times> app" where
  "randomUUID uuid st = (uuid (uuid_ctr st), st\<lparr>uuid_ctr := Suc (uuid_ctr st)\<rparr>)"

text \<open>
  \<^verbatim>\<open>clipboard.items.map(item => ({ ...item, id: crypto.randomUUID(), timestamp: Date.now() }))\<close>:
  the item at position \<open>k\<close> gets the \<open>k\<close>-th identifier drawn from counter \<open>c\<close> on.
\<close>

fun freshItems :: "(nat \<Rightarrow> string) \<Rightarrow> nat \<Rightarrow> nat \<Rightarrow> CanvasItem list \<Rightarrow> CanvasItem list" where
  "freshItems uuid now c [] = []"
| "freshItems uuid now c (it # its) =
     it\<lparr>item_id := uuid c, item_timestamp := now\<rparr> # freshItems uuid now (Suc c) its"

subsection \<open>Copy, paste, delete\<close>

text \<open>
  \<^verbatim>\<open>handleCopy\<close> (App.tsx:118). \<^verbatim>\<open>if (selectedNodeId)\<close> is false for \<^verbatim>\<open>null\<close> and
  for the empty string. The clipboard holds the node object itself.
\<close>

definition handleCopy :: "app \<Rightarrow> app" where
  "handleCopy st =
     (case selectedNodeId st of
        None \<Rightarrow> st
      | Some sel \<Rightarrow>
          if sel = [] then st
          else (case findNode sel (storyboards st) of
                  None \<Rightarrow> st
                | Some node \<Rightarrow> st\<lparr>clipboard := Some node\<rparr>))"

text \<open>
  \<^verbatim>\<open>handlePaste\<close> (App.tsx:125). The new node is the clipboard node with a new id, new
  item ids, the title suffixed, the position moved by \<^verbatim>\<open>offset = 40\<close> from the position
  stored in the clipboard, and both connection lists empty. The clipboard is not written.
\<close>

definition handlePaste :: "(nat \<Rightarrow> string) \<Rightarrow> nat \<Rightarrow> app \<Rightarrow> app" where
  "handlePaste uuid now st =
     (case clipboard st of
        None \<Rightarrow> st
      | Some cb \<Rightarrow>
          (let st1 = saveHistory st;
               (newId, st2) = randomUUID uuid st1;
               offset = 40;
               newItems = freshItems uuid now (uuid_ctr st2) (items cb);
               st3 = st2\<lparr>uuid_ctr := uuid_ctr st2 + length (items cb)\<rparr>;
               newNode = cb\<lparr> sg_id := newId,
                             title := title cb @ '' (Copy)'',
                             pos_x := pos_x cb + offset,
                             pos_y := pos_y cb + offset,
                             items := newItems,
                             connections := [],
                             inputs := Some [],
                             timestamp := now \<rparr>
           in st3\<lparr>storyboards := storyboards st3 @ [newNode], selectedNodeId := Some newId\<rparr>))"

text \<open>
  \<^verbatim>\<open>handleDeleteNode\<close> (App.tsx:154). One updater drops every node with the id and
  filters the id out of both lists of every remaining node;
  \<^verbatim>\<open>g.inputs?.filter(...) || []\<close> turns an absent inbound list into the empty one.
\<close>

definition pruneNode :: "string \<Rightarrow> StoryboardGroup \<Rightarrow> StoryboardGroup" where
  "pruneNode nodeId g =
     g\<lparr> connections := filter (\<lambda>c. c \<noteq> nodeId) (connections g),
        inputs := Some (case inputs g of None \<Rightarrow> [] | Some i \<Rightarrow> filter (\<lambda>i. i \<noteq> nodeId) i) \<rparr>"

definition handleDeleteNode :: "string \<Rightarrow> app \<Rightarrow> app" where
  "handleDeleteNode nodeId st =
     (let st1 = saveHistory st;
          remaining = filter (\<lambda>g. sg_id g \<noteq> nodeId) (storyboards st1);
          st2 = st1\<lparr>storyboards := map (pruneNode nodeId) remaining\<rparr>;
          st3 = (if selectedNodeId st2 = Some nodeId then st2\<lparr>selectedNodeId := None\<rparr> else st2)
      in (if editorNodeId st3 = Some nodeId then st3\<lparr>editorNodeId := None\<rparr> else st3))"

text \<open>\<^verbatim>\<open>handleRenameNode\<close> (App.tsx:330), the plainest history-guarded action.\<close>

definition handleRenameNode :: "string \<Rightarrow> string \<Rightarrow> app \<Rightarrow> app" where
  "handleRenameNode nodeId newTitle st =
     (let st1 = saveHistory st
      in st1\<lparr>storyboards :=
               map (\<lambda>g. if sg_id g = nodeId then g\<lparr>title := newTitle\<rparr> else g) (storyboards st1)\<rparr>)"

subsection \<open>Connect and disconnect\<close>

text \<open>
  \<^verbatim>\<open>handleConnect\<close> (App.tsx:556). \<open>connectSource\<close> is the second \<^verbatim>\<open>if\<close> of the
  updater (the group is the source), reached when the group is not the target or when
  the target branch falls through; \<open>connectGroup\<close> is the updater's body. The
  music-to-timeline branch appends the source without looking at \<^verbatim>\<open>inputs\<close> and
  writes \<^verbatim>\<open>timelineAudioUrl\<close> into a copy of the config.
\<close>

definition connectSource :: "string \<Rightarrow> string \<Rightarrow> StoryboardGroup \<Rightarrow> StoryboardGroup" where
  "connectSource sourceNodeId targetNodeId grp =
     (if sg_id grp = sourceNodeId \<and> targetNodeId \<notin> set (connections grp)
      then grp\<lparr>connections := connections grp @ [targetNodeId]\<rparr>
      else grp)"

text \<open>
  \<^verbatim>\<open>sourceNode?.type === 'music' && sourceNode.items.length > 0\<close>, with the value
  \<^verbatim>\<open>sourceNode.items[0].url\<close> that the branch then reads.
\<close>

definition musicFirstUrl :: "StoryboardGroup option \<Rightarrow> string option" where
  "musicFirstUrl sourceNode =
     (case sourceNode of
        None \<Rightarrow> None
      | Some s \<Rightarrow>
          if sg_type s = Music
          then (case items s of [] \<Rightarrow> None | it # _ \<Rightarrow> Some (item_url it))
          else None)"

definition connectGroup ::
  "string \<Rightarrow> string \<Rightarrow> StoryboardGroup option \<Rightarrow> StoryboardGroup \<Rightarrow> StoryboardGroup" where
  "connectGroup sourceNodeId targetNodeId sourceNode grp =
     (if sg_id grp = targetNodeId
      then (case (if sg_type grp = Timeline then musicFirstUrl sourceNode else None) of
              Some u \<Rightarrow>
                grp\<lparr> inputs := Some (inputsOrEmpty grp @ [sourceNodeId]),
                       config := Some ((configOrEmpty grp)\<lparr>timelineAudioUrl := Some u\<rparr>) \<rparr>
            | None \<Rightarrow>
                if sourceNodeId \<notin> set (inputsOrEmpty grp)
                then grp\<lparr>inputs := Some (inputsOrEmpty grp @ [sourceNodeId])\<rparr>
                else connectSource sourceNodeId targetNodeId grp)
      else connectSource sourceNodeId targetNodeId grp)"

definition handleConnect :: "string \<Rightarrow> string \<Rightarrow> app \<Rightarrow> app" where
  "handleConnect sourceNodeId targetNodeId st =
     (if sourceNodeId = targetNodeId then st
      else
        (let sourceNode = findNode sourceNodeId (storyboards st)
         in if (case sourceNode of None \<Rightarrow> False | Some s \<Rightarrow> targetNodeId \<in> set (connections s))
            then st
            else (let st1 = saveHistory st
                  in st1\<lparr>storyboards :=
                           map (connectGroup sourceNodeId targetNodeId sourceNode) (storyboards st1)\<rparr>)))"

text \<open>\<^verbatim>\<open>handleDisconnect\<close> (App.tsx:588): the target test comes first.\<close>

definition disconnectGroup :: "string \<Rightarrow> string \<Rightarrow> StoryboardGroup \<Rightarrow> StoryboardGroup" where
  "disconnectGroup sourceNodeId targetNodeId grp =
     (if sg_id grp = targetNodeId
      then grp\<lparr>inputs := Some (case inputs grp of None \<Rightarrow> []
                                 | Some i \<Rightarrow> filter (\<lambda>n. n \<noteq> sourceNodeId) i)\<rparr>
      else if sg_id grp = sourceNodeId
      then grp\<lparr>connections := filter (\<lambda>n. n \<noteq> targetNodeId) (connections grp)\<rparr>
      else grp)"

definition handleDisconnect :: "string \<Rightarrow> string \<Rightarrow> app \<Rightarrow> app" where
  "handleDisconnect sourceNodeId targetNodeId st =
     (let st1 = saveHistory st
      in st1\<lparr>storyboards := map (disconnectGroup sourceNodeId targetNodeId) (storyboards st1)\<rparr>)"

section \<open>Timeline player (src/components/Button.tsx, component TimelinePlayer)\<close>

text \<open>
  The effect at Button.tsx:346: \<^verbatim>\<open>clips.reduce((acc, clip) => acc + clip.duration, 0)\<close>
  and \<^verbatim>\<open>Math.max(clipsDur, audioDuration, 60)\<close>.
\<close>

definition clipsDur :: "TimelineClip list \<Rightarrow> real" where
  "clipsDur clips = foldl (\<lambda>acc clip. acc + duration clip) 0 clips"

definition totalDuration :: "TimelineClip list \<Rightarrow> real \<Rightarrow> real" where
  "totalDuration clips audioDuration = max (max (clipsDur clips) audioDuration) 60"

text \<open>
  The start of clip \<open>i\<close> in the video track (Button.tsx:777):
  \<^verbatim>\<open>let startTime = 0; for (let j = 0; j < i; j++) startTime += clips[j].duration\<close>.
  The index \<open>i\<close> is that of \<^verbatim>\<open>clips.map((clip, i) => ...)\<close>, so every \<open>clips[j]\<close>
  read is in range.
\<close>

definition startTime :: "TimelineClip list \<Rightarrow> nat \<Rightarrow> real" where
  "startTime clips i = foldl (\<lambda>t j. t + duration (clips ! j)) 0 [0..<i]"

text \<open>
  Resizing (Button.tsx:365 and 863). Mouse-down on the handle of a clip stores the clip's
  id, the pointer position and the clip's duration; every mouse move while that state is
  set rebuilds the clip list, giving the clips with the stored id the duration
  \<^verbatim>\<open>Math.max(0.5, startDuration + deltaPixels / pixelsPerSecond)\<close>, and hands the list
  to \<^verbatim>\<open>onUpdateClips\<close>. Without resizing state the handler returns at once.
  \<^verbatim>\<open>pixelsPerSecond\<close> comes from a range input between 10 and 100.
\<close>

record resizing =
  rs_id :: string
  startX :: real
  startDuration :: real

definition resizeMouseDown :: "TimelineClip \<Rightarrow> real \<Rightarrow> resizing" where
  "resizeMouseDown clip clientX =
     \<lparr> rs_id = clip_id clip, startX = clientX, startDuration = duration clip \<rparr>"

definition resizeMouseMove ::
  "resizing option \<Rightarrow> real \<Rightarrow> real \<Rightarrow> TimelineClip list \<Rightarrow> TimelineClip list" where
  "resizeMouseMove resizingState pixelsPerSecond clientX clips =
     (case resizingState of
        None \<Rightarrow> clips
      | Some rs \<Rightarrow>
          (let deltaPixels = clientX - startX rs;
               deltaTime = deltaPixels / pixelsPerSecond;
               newDuration = max 0.5 (startDuration rs + deltaTime)
           in map (\<lambda>c. if clip_id c = rs_id rs then c\<lparr>duration := newDuration\<rparr> else c) clips))"

section \<open>Timeline clips in the store (src/App.tsx)\<close>

text \<open>
  The store of clip arrays: an address is an index into \<open>heap\<close>. \<open>allocClips\<close> is
  an array literal, a spread copy or the result of \<^verbatim>\<open>map\<close>: a new array.
  \<open>pushClip\<close> is \<^verbatim>\<open>Array.prototype.push\<close>: it changes the array at the address, for
  every object that holds the address. \<open>clipsRef\<close> is \<^verbatim>\<open>g.config?.timelineClips\<close>,
  and \<open>clipsOf\<close> reads the clips a node shows.
\<close>

type_synonym clipHeap = "TimelineClip list list"

definition allocClips :: "TimelineClip list \<Rightarrow> clipHeap \<Rightarrow> nat \<times> clipHeap" where
  "allocClips xs h = (length h, h @ [xs])"

definition pushClip :: "nat \<Rightarrow> TimelineClip \<Rightarrow> clipHeap \<Rightarrow> clipHeap" where
  "pushClip r c h = h[r := h ! r @ [c]]"

definition clipsRef :: "StoryboardGroup \<Rightarrow> nat option" where
  "clipsRef g = (case config g of None \<Rightarrow> None | Some c \<Rightarrow> timelineClips c)"

definition clipsOf :: "clipHeap \<Rightarrow> StoryboardGroup \<Rightarrow> TimelineClip list option" where
  "clipsOf h g = map_option (\<lambda>r. h ! r) (clipsRef g)"

text \<open>
  Decimal digits of a number inside a template literal
  (\<^verbatim>\<open>`scene-${i}`\<close>, \<^verbatim>\<open>`import-${Date.now()}-${inputCount}`\<close>).
\<close>

definition digitChar :: "nat \<Rightarrow> char" where
  "digitChar d = ''0123456789'' ! d"

fun showNat :: "nat \<Rightarrow> string" where
  "showNat n = (if n < 10 then [digitChar n] else showNat (n div 10) @ [digitChar (n mod 10)])"

declare showNat.simps [simp del]

subsection \<open>Importing videos into a timeline\<close>

text \<open>
  \<^verbatim>\<open>handleImportVideosToTimeline\<close> (App.tsx:789). The handler saves the history and
  then takes \<^verbatim>\<open>agent.config?.timelineClips || []\<close>: the array of the node in the
  state when there is one, a new array otherwise. Every video item of every connected
  video node whose url no clip has yet is pushed on that array; \<^verbatim>\<open>item.duration || 5\<close>
  and \<^verbatim>\<open>item.fileName || 'Imported Video'\<close> replace an absent, zero or empty value.
  The state of the two loops is the store, the identifier counter and
  \<^verbatim>\<open>inputCount\<close>. With nothing imported the handler reports an error and leaves the
  node collection; otherwise the timeline's config points at the array.
\<close>

definition importedClip :: "string \<Rightarrow> nat \<Rightarrow> nat \<Rightarrow> CanvasItem \<Rightarrow> TimelineClip" where
  "importedClip newId now inputCount item =
     \<lparr> clip_id = newId,
       sceneId = ''import-'' @ showNat now @ ''-'' @ showNat inputCount,
       videoUrl = item_url item,
       thumbUrl = item_url item,
       duration = (case item_duration item of None \<Rightarrow> 5 | Some d \<Rightarrow> if d = 0 then 5 else d),
       clip_prompt = (case item_fileName item of None \<Rightarrow> ''Imported Video''
                      | Some f \<Rightarrow> if f = [] then ''Imported Video'' else f),
       status = Done \<rparr>"

fun importItems ::
  "(nat \<Rightarrow> string) \<Rightarrow> nat \<Rightarrow> nat \<Rightarrow> CanvasItem list \<Rightarrow> clipHeap \<times> nat \<times> nat \<Rightarrow> clipHeap \<times> nat \<times> nat" where
  "importItems uuid now r [] s = s"
| "importItems uuid now r (item # rest) (h, c, inputCount) =
     (if \<not> list_ex (\<lambda>cl. videoUrl cl = item_url item) (h ! r)
      then importItems uuid now r rest
             (pushClip r (importedClip (uuid c) now inputCount item) h, Suc c, Suc inputCount)
      else importItems uuid now r rest (h, c, inputCount))"

fun importInputs ::
  "(nat \<Rightarrow> string) \<Rightarrow> nat \<Rightarrow> StoryboardGroup list \<Rightarrow> nat \<Rightarrow> string list
     \<Rightarrow> clipHeap \<times> nat \<times> nat \<Rightarrow> clipHeap \<times> nat \<times> nat" where
  "importInputs uuid now sb r [] s = s"
| "importInputs uuid now sb r (inputId # rest) s =
     importInputs uuid now sb r rest
       (case findNode inputId sb of
          None \<Rightarrow> s
        | Some inputNode \<Rightarrow>
            if sg_type inputNode = VideoNode then importItems uuid now r (items inputNode) s else s)"

definition handleImportVideosToTimeline :: "(nat \<Rightarrow> string) \<Rightarrow> nat \<Rightarrow> string \<Rightarrow> app \<Rightarrow> app" where
  "handleImportVideosToTimeline uuid now agentId st =
     (case findNode agentId (storyboards st) of
        None \<Rightarrow> st
      | Some agent \<Rightarrow>
          (let st1 = saveHistory st;
               (importedClips, h1) =
                  (case clipsRef agent of
                     Some r \<Rightarrow> (r, heap st1)
                   | None \<Rightarrow> allocClips [] (heap st1));
               (h2, c2, inputCount) =
                  (case inputs agent of
                     None \<Rightarrow> (h1, uuid_ctr st1, 0)
                   | Some ins \<Rightarrow>
                       importInputs uuid now (storyboards st) importedClips ins (h1, uuid_ctr st1, 0));
               st2 = st1\<lparr>heap := h2, uuid_ctr := c2\<rparr>
           in if inputCount = 0
              then st2\<lparr>error := Some ''No videos found in connected Video Nodes.''\<rparr>
              else st2\<lparr>storyboards :=
                     map (\<lambda>g. if sg_id g = agentId
                              then g\<lparr>config := Some ((configOrEmpty g)\<lparr>timelineClips := Some importedClips\<rparr>)\<rparr>
                              else g)
                       (storyboards st2)\<rparr>))"

subsection \<open>Generating the clips of a timeline\<close>

text \<open>
  \<^verbatim>\<open>generateVideoClip\<close> is the generation service: the model takes it as a parameter
  that, for the \<open>k\<close>-th request of a batch, the image and the prompt, answers with the
  video url the promise resolves to or with the error it rejects with. The error is an
  object whose \<^verbatim>\<open>message\<close> may be absent or empty. \<open>genItem\<close> is an entry of
  \<^verbatim>\<open>clipsToGenerate\<close>.
\<close>

datatype outcome = Resolved string | Rejected "string option"

record genItem =
  gi_index :: nat
  gi_scene :: MVScene
  gi_clipId :: string

text \<open>
  \<^verbatim>\<open>setStoryboards(prev => prev.map(g => ...))\<close> where the function builds arrays:
  the node list is mapped from left to right and the store is passed along.
\<close>

fun mapNodes ::
  "(StoryboardGroup \<Rightarrow> clipHeap \<Rightarrow> StoryboardGroup \<times> clipHeap) \<Rightarrow> StoryboardGroup list \<Rightarrow> clipHeap
     \<Rightarrow> StoryboardGroup list \<times> clipHeap" where
  "mapNodes f [] h = ([], h)"
| "mapNodes f (g # gs) h =
     (let (g', h1) = f g h; (gs', h2) = mapNodes f gs h1 in (g' # gs', h2))"

text \<open>
  The loop over \<^verbatim>\<open>agent.inputs\<close> (App.tsx:838): the scene list of the last
  connected storyboard node that has one (an empty list counts), and the first item's url
  of the last connected music node that has items.
\<close>

fun scanInputs ::
  "StoryboardGroup list \<Rightarrow> string list \<Rightarrow> MVScene list \<times> string option \<Rightarrow> MVScene list \<times> string option" where
  "scanInputs sb [] acc = acc"
| "scanInputs sb (inputId # rest) (scenes, audioUrl) =
     (case findNode inputId sb of
        None \<Rightarrow> scanInputs sb rest (scenes, audioUrl)
      | Some inputNode \<Rightarrow>
          scanInputs sb rest
            (if sg_type inputNode = MvStoryboard
             then (case config inputNode of
                     None \<Rightarrow> scenes
                   | Some c \<Rightarrow> (case mvScenes c of None \<Rightarrow> scenes | Some s \<Rightarrow> s))
             else scenes,
             if sg_type inputNode = Music
             then (case items inputNode of [] \<Rightarrow> audioUrl | it # _ \<Rightarrow> Some (item_url it))
             else audioUrl))"

text \<open>
  The placeholders (App.tsx:859). Scene \<open>i\<close> is skipped when a clip of the array is
  done for \<^verbatim>\<open>scene-i\<close> or when the scene has no image; otherwise a clip with a new id
  and status \<^verbatim>\<open>generating\<close> is pushed on \<^verbatim>\<open>currentClips\<close> and the scene is
  queued. \<open>showPlaceholders\<close> is the update that follows: the timeline gets a copy
  \<^verbatim>\<open>[...currentClips]\<close>.
\<close>

definition placeholderClip :: "string \<Rightarrow> string \<Rightarrow> string \<Rightarrow> MVScene \<Rightarrow> TimelineClip" where
  "placeholderClip clipId sid img scene =
     \<lparr> clip_id = clipId, sceneId = sid, videoUrl = [], thumbUrl = img, duration = 4,
       clip_prompt = visualDescription scene, status = Generating \<rparr>"

fun planClips ::
  "(nat \<Rightarrow> string) \<Rightarrow> nat \<Rightarrow> nat \<Rightarrow> MVScene list \<Rightarrow> clipHeap \<times> nat \<times> genItem list
     \<Rightarrow> clipHeap \<times> nat \<times> genItem list" where
  "planClips uuid r i [] s = s"
| "planClips uuid r i (scene # rest) (h, c, clipsToGenerate) =
     (let sid = ''scene-'' @ showNat i
      in if list_ex (\<lambda>cl. sceneId cl = sid \<and> status cl = Done) (h ! r)
         then planClips uuid r (Suc i) rest (h, c, clipsToGenerate)
         else (case imageUrl scene of
                 None \<Rightarrow> planClips uuid r (Suc i) rest (h, c, clipsToGenerate)
               | Some img \<Rightarrow>
                   if img = [] then planClips uuid r (Suc i) rest (h, c, clipsToGenerate)
                   else planClips uuid r (Suc i) rest
                          (pushClip r (placeholderClip (uuid c) sid img scene) h, Suc c,
                           clipsToGenerate @ [\<lparr> gi_index = i, gi_scene = scene, gi_clipId = uuid c \<rparr>])))"

definition showPlaceholders ::
  "string \<Rightarrow> nat \<Rightarrow> StoryboardGroup \<Rightarrow> clipHeap \<Rightarrow> StoryboardGroup \<times> clipHeap" where
  "showPlaceholders agentId currentClips g h =
     (if sg_id g = agentId
      then (let (r', h') = allocClips (h ! currentClips) h
            in (g\<lparr>config := Some ((configOrEmpty g)\<lparr>timelineClips := Some r'\<rparr>)\<rparr>, h'))
      else (g, h))"

text \<open>
  The two updates of one clip (App.tsx:892 and 906): on success the url and status
  \<^verbatim>\<open>done\<close>, on failure status \<^verbatim>\<open>error\<close> and the prompt
  \<^verbatim>\<open>`Error: ${clipErr.message || "Failed"}`\<close>. \<open>settleClip\<close> is the function mapped over
  the clips, \<open>updateClips\<close> the function mapped over the nodes:
  \<^verbatim>\<open>g.config?.timelineClips?.map(...)\<close> is a new array, or \<^verbatim>\<open>undefined\<close> when the node
  has no clip array.
\<close>

definition settled :: "outcome \<Rightarrow> TimelineClip \<Rightarrow> TimelineClip" where
  "settled out c =
     (case out of
        Resolved url \<Rightarrow> c\<lparr>videoUrl := url, status := Done\<rparr>
      | Rejected msg \<Rightarrow>
          c\<lparr>status := Error,
            clip_prompt := ''Error: '' @ (case msg of None \<Rightarrow> ''Failed''
                                          | Some m \<Rightarrow> if m = [] then ''Failed'' else m)\<rparr>)"

definition settleClip :: "string \<Rightarrow> outcome \<Rightarrow> TimelineClip \<Rightarrow> TimelineClip" where
  "settleClip clipId out c = (if clip_id c = clipId then settled out c else c)"

definition updateClips ::
  "string \<Rightarrow> (TimelineClip \<Rightarrow> TimelineClip) \<Rightarrow> StoryboardGroup \<Rightarrow> clipHeap \<Rightarrow> StoryboardGroup \<times> clipHeap" where
  "updateClips agentId f g h =
     (if sg_id g \<noteq> agentId then (g, h)
      else (case clipsRef g of
              None \<Rightarrow> (g\<lparr>config := Some ((configOrEmpty g)\<lparr>timelineClips := None\<rparr>)\<rparr>, h)
            | Some r \<Rightarrow>
                (let (r', h') = allocClips (map f (h ! r)) h
                 in (g\<lparr>config := Some ((configOrEmpty g)\<lparr>timelineClips := Some r'\<rparr>)\<rparr>, h'))))"

text \<open>
  The request for one queued scene,
  \<^verbatim>\<open>generateVideoClip(scene.imageUrl, scene.midjourneyPrompt || scene.visualDescription)\<close>,
  and the loop \<^verbatim>\<open>for (const item of clipsToGenerate)\<close> (App.tsx:884): each request is
  awaited, and the \<^verbatim>\<open>try\<close> around it turns a rejection into the error update, so the
  loop goes on to the next item either way.
\<close>

definition clipOutcome :: "(nat \<Rightarrow> string option \<Rightarrow> string \<Rightarrow> outcome) \<Rightarrow> nat \<Rightarrow> genItem \<Rightarrow> outcome" where
  "clipOutcome generateVideoClip k item =
     generateVideoClip k (imageUrl (gi_scene item))
       (if midjourneyPrompt (gi_scene item) \<noteq> [] then midjourneyPrompt (gi_scene item)
        else visualDescription (gi_scene item))"

fun generateClips ::
  "(nat \<Rightarrow> string option \<Rightarrow> string \<Rightarrow> outcome) \<Rightarrow> string \<Rightarrow> nat \<Rightarrow> genItem list \<Rightarrow> app \<Rightarrow> app" where
  "generateClips generateVideoClip agentId k [] st = st"
| "generateClips generateVideoClip agentId k (item # rest) st =
     (let (sb', h') = mapNodes
            (updateClips agentId (settleClip (gi_clipId item) (clipOutcome generateVideoClip k item)))
            (storyboards st) (heap st)
      in generateClips generateVideoClip agentId (Suc k) rest (st\<lparr>storyboards := sb', heap := h'\<rparr>))"

text \<open>
  \<^verbatim>\<open>handleGenerateTimeline\<close> (App.tsx:827). \<open>planTimeline\<close> is lines 855 to 881: the
  array to extend, the placeholders and the first update. Without scenes the handler
  throws, and its \<^verbatim>\<open>catch\<close> stores the message; \<^verbatim>\<open>finally\<close> takes the agent out
  of \<^verbatim>\<open>generatingAgents\<close>.
\<close>

definition planTimeline ::
  "(nat \<Rightarrow> string) \<Rightarrow> string \<Rightarrow> StoryboardGroup \<Rightarrow> MVScene list \<Rightarrow> app \<Rightarrow> genItem list \<times> app" where
  "planTimeline uuid agentId agent scenes st =
     (let (currentClips, h1) =
            (case clipsRef agent of
               Some r \<Rightarrow> (r, heap st)
             | None \<Rightarrow> allocClips [] (heap st));
          (h2, c2, clipsToGenerate) = planClips uuid currentClips 0 scenes (h1, uuid_ctr st, []);
          (sb3, h3) = mapNodes (showPlaceholders agentId currentClips) (storyboards st) h2
      in (clipsToGenerate, st\<lparr>storyboards := sb3, heap := h3, uuid_ctr := c2\<rparr>))"

definition handleGenerateTimeline ::
  "(nat \<Rightarrow> string) \<Rightarrow> (nat \<Rightarrow> string option \<Rightarrow> string \<Rightarrow> outcome) \<Rightarrow> string \<Rightarrow> app \<Rightarrow> app" where
  "handleGenerateTimeline uuid generateVideoClip agentId st =
     (case findNode agentId (storyboards st) of
        None \<Rightarrow> st
      | Some agent \<Rightarrow>
          (let st1 = st\<lparr>generatingAgents :=
                          (if agentId \<in> set (generatingAgents st) then generatingAgents st
                           else generatingAgents st @ [agentId]),
                        error := None\<rparr>;
               (scenes, audioUrl) =
                  (case inputs agent of
                     None \<Rightarrow> ([], None)
                   | Some ins \<Rightarrow> scanInputs (storyboards st) ins ([], None));
               st' =
                 (if scenes = []
                  then st1\<lparr>error := Some ''Please connect an MV Storyboard with generated scenes.''\<rparr>
                  else
                    (let st2 =
                           (case audioUrl of
                              None \<Rightarrow> st1
                            | Some u \<Rightarrow>
                                if u = [] then st1
                                else st1\<lparr>storyboards :=
                                       map (\<lambda>g. if sg_id g = agentId
                                                then g\<lparr>config := Some ((configOrEmpty g)\<lparr>timelineAudioUrl := Some u\<rparr>)\<rparr>
                                                else g)
                                         (storyboards st1)\<rparr>);
                         (clipsToGenerate, st3) = planTimeline uuid agentId agent scenes st2
                     in generateClips generateVideoClip agentId 0 clipsToGenerate st3))
           in st'\<lparr>generatingAgents := filter (\<lambda>a. a \<noteq> agentId) (generatingAgents st')\<rparr>))"

section \<open>Notions for stating the properties\<close>

text \<open>
  A node list is well-formed in a store when every clip array address it holds is
  allocated. \<open>settleAll\<close> applies to one clip the clip updates of a whole batch, in the
  order of the loop.
\<close>

definition refOk :: "clipHeap \<Rightarrow> StoryboardGroup \<Rightarrow> bool" where
  "refOk h g = (case clipsRef g of None \<Rightarrow> True | Some r \<Rightarrow> r < length h)"

definition refsOk :: "clipHeap \<Rightarrow> StoryboardGroup list \<Rightarrow> bool" where
  "refsOk h sb = list_all (refOk h) sb"

fun settleAll ::
  "(nat \<Rightarrow> string option \<Rightarrow> string \<Rightarrow> outcome) \<Rightarrow> nat \<Rightarrow> genItem list \<Rightarrow> TimelineClip \<Rightarrow> TimelineClip" where
  "settleAll generateVideoClip k [] c = c"
| "settleAll generateVideoClip k (item # rest) c =
     settleAll generateVideoClip (Suc k) rest
       (settleClip (gi_clipId item) (clipOutcome generateVideoClip k item) c)"

text \<open>
  The shape of a history-guarded action that only rebuilds the node collection,
  \<^verbatim>\<open>saveHistory(); setStoryboards(prev => f(prev))\<close>, as in \<^verbatim>\<open>handleRenameNode\<close>
  and \<^verbatim>\<open>handleDisconnect\<close>; a sequence of such actions; and the node collections
  that the sequence passes to \<^verbatim>\<open>saveHistory\<close>, oldest first.
\<close>

definition guarded :: "(StoryboardGroup list \<Rightarrow> StoryboardGroup list) \<Rightarrow> app \<Rightarrow> app" where
  "guarded f st = (saveHistory st)\<lparr>storyboards := f (storyboards st)\<rparr>"

fun runGuarded :: "(StoryboardGroup list \<Rightarrow> StoryboardGroup list) list \<Rightarrow> app \<Rightarrow> app" where
  "runGuarded [] st = st"
| "runGuarded (f # fs) st = runGuarded fs (guarded f st)"

fun snapshots ::
  "(StoryboardGroup list \<Rightarrow> StoryboardGroup list) list \<Rightarrow> StoryboardGroup list \<Rightarrow> StoryboardGroup list list" where
  "snapshots [] sb = []"
| "snapshots (f # fs) sb = sb # snapshots fs (f sb)"

section \<open>Example graphs\<close>

text \<open>
  Concrete inputs for the closed theorems below: a node and an item with default
  properties, an application state around a node list, the start-up template of
  \<^verbatim>\<open>initTemplate\<close> (an asset bin \<open>a\<close> wired to an agent \<open>b\<close>) next to a music
  bin \<open>m\<close> holding one track and a timeline \<open>t\<close>, and an injective identifier supply.
\<close>

definition mkNode :: "string \<Rightarrow> StoryboardType \<Rightarrow> StoryboardGroup" where
  "mkNode i t = \<lparr> sg_id = i, sg_type = t, title = ''Node'', pos_x = 100, pos_y = 300,
     width = None, height = None, items = [], timestamp = 0, connections = [],
     inputs = None, config = None, displayMode = None \<rparr>"

definition mkItem :: "string \<Rightarrow> string \<Rightarrow> MediaType \<Rightarrow> CanvasItem" where
  "mkItem i u t = \<lparr> item_id = i, item_url = u, item_type = t, item_prompt = None,
     item_aspectRatio = None, item_timestamp = 0, item_fullGridUrl = None,
     item_duration = None, item_fileName = None \<rparr>"

definition mkApp :: "StoryboardGroup list \<Rightarrow> app" where
  "mkApp sb = \<lparr> storyboards = sb, history = [], clipboard = None, generatingAgents = [],
     selectedNodeId = None, editorNodeId = None, error = None, heap = [], uuid_ctr = 0 \<rparr>"

definition exGraph :: "StoryboardGroup list" where
  "exGraph = [ (mkNode ''a'' Assets)\<lparr>connections := [''b'']\<rparr>,
               (mkNode ''b'' Agent)\<lparr>inputs := Some [''a'']\<rparr>,
               mkNode ''m'' Music \<lparr>items := [mkItem ''i1'' ''blob:song'' Audio]\<rparr>,
               mkNode ''t'' Timeline ]"

definition exUuid :: "nat \<Rightarrow> string" where
  "exUuid n = replicate (Suc n) CHR ''u''"

definition exClipApp :: app where
  "exClipApp = handleCopy ((mkApp exGraph)\<lparr>selectedNodeId := Some ''a''\<rparr>)"

definition pastedTwice :: app where
  "pastedTwice = handlePaste exUuid 2 (handlePaste exUuid 1 exClipApp)"

definition mkClip :: "string \<Rightarrow> real \<Rightarrow> TimelineClip" where
  "mkClip i d = \<lparr> clip_id = i, sceneId = ''scene-0'', videoUrl = ''blob:v'', thumbUrl = ''blob:t'',
     duration = d, clip_prompt = ''shot'', status = Done \<rparr>"

definition exClips :: "TimelineClip list" where
  "exClips = [mkClip ''c0'' 4, mkClip ''c1'' 4, mkClip ''c2'' 4]"

definition exImportApp :: app where
  "exImportApp =
     (mkApp [ (mkNode ''v'' VideoNode)\<lparr>items := [mkItem ''i1'' ''blob:v1'' Video], connections := [''t'']\<rparr>,
              (mkNode ''t'' Timeline)\<lparr>inputs := Some [''v''],
                 config := Some (emptyConfig\<lparr>timelineClips := Some 0\<rparr>)\<rparr> ])
       \<lparr>heap := [[]]\<rparr>"

definition mkScene :: "string \<Rightarrow> string \<Rightarrow> MVScene" where
  "mkScene d img = \<lparr> timeCode = ''0:00'', rhythm = ''slow'', visualDescription = d,
     midjourneyPrompt = [], cameraMovement = ''pan'', imageUrl = Some img \<rparr>"

definition exScenes :: "MVScene list" where
  "exScenes = [mkScene ''dawn'' ''data:1'', mkScene ''noon'' ''data:2'', mkScene ''dusk'' ''data:3'']"

definition exBatchApp :: app where
  "exBatchApp =
     (mkApp [ (mkNode ''s'' MvStoryboard)\<lparr>connections := [''t''],
                 config := Some (emptyConfig\<lparr>mvScenes :=
                   Some exScenes\<rparr>)\<rparr>,
              (mkNode ''t'' Timeline)\<lparr>inputs := Some [''s''],
                 config := Some (emptyConfig\<lparr>timelineClips := Some 0\<rparr>)\<rparr> ])
       \<lparr>heap := [[]]\<rparr>"

definition exService :: "nat \<Rightarrow> string option \<Rightarrow> string \<Rightarrow> outcome" where
  "exService k img p = (if k = 1 then Rejected (Some ''quota exceeded'') else Resolved (''blob:clip-'' @ p))"

definition exBatchDone :: app where
  "exBatchDone = handleGenerateTimeline exUuid exService ''t'' exBatchApp"

definition exPlanned :: "genItem list \<times> app" where
  "exPlanned = planTimeline exUuid ''t'' (storyboards exBatchApp ! 1) exScenes exBatchApp"

definition exBatchLoop :: app where
  "exBatchLoop = generateClips exService ''t'' 0 (fst exPlanned) (snd exPlanned)"

definition exImported :: app where
  "exImported = handleImportVideosToTimeline exUuid 7 ''t'' exImportApp"

section \<open>Properties\<close>

subsection \<open>Node lookup and identifiers under the updaters\<close>

lemma findNode_map:
  "(\<And>g. sg_id (f g) = sg_id g) \<Longrightarrow> findNode a (map f sb) = map_option f (findNode a sb)"
  by (induction sb) (simp_all add: findNode_def)

lemma findNode_None_iff: "findNode a sb = None \<longleftrightarrow> (\<forall>g \<in> set sb. sg_id g \<noteq> a)"
  by (induction sb) (auto simp: findNode_def)

lemma findNode_Some_id: "findNode a sb = Some s \<Longrightarrow> sg_id s = a \<and> s \<in> set sb"
  by (induction sb) (auto simp: findNode_def split: if_splits)

lemma connectSource_id [simp]: "sg_id (connectSource a b g) = sg_id g"
  by (simp add: connectSource_def)

lemma connectGroup_id [simp]: "sg_id (connectGroup a b s g) = sg_id g"
  by (simp add: connectGroup_def split: option.splits)

lemma disconnectGroup_id [simp]: "sg_id (disconnectGroup a b g) = sg_id g"
  by (simp add: disconnectGroup_def)

lemma pruneNode_id [simp]: "sg_id (pruneNode x g) = sg_id g"
  by (simp add: pruneNode_def)

lemma storyboards_saveHistory [simp]: "storyboards (saveHistory st) = storyboards st"
  by (simp add: saveHistory_def Let_def)

subsection \<open>Deleting a node\<close>

lemma pruneNode_connections: "connections (pruneNode x g) = filter (\<lambda>c. c \<noteq> x) (connections g)"
  by (simp add: pruneNode_def)

lemma pruneNode_inputs: "inputs (pruneNode x g) = Some (filter (\<lambda>c. c \<noteq> x) (inputsOrEmpty g))"
  by (simp add: pruneNode_def inputsOrEmpty_def split: option.splits)

lemma storyboards_handleDeleteNode:
  "storyboards (handleDeleteNode x st) = map (pruneNode x) (filter (\<lambda>g. sg_id g \<noteq> x) (storyboards st))"
  by (simp add: handleDeleteNode_def Let_def)

text \<open>
  Claim C1. After \<^verbatim>\<open>removeNode(X)\<close> (\<open>handleDeleteNode\<close>) no node of the graph has
  the id \<open>X\<close>, and no remaining node lists \<open>X\<close> among its connections or its inputs;
  the nodes with another id all remain, in order. Removal and pruning are the one update
  of the node collection that \<open>handleDeleteNode\<close> makes.
\<close>

theorem removeNode_prunes:
  "(\<forall>g \<in> set (storyboards (handleDeleteNode x st)).
      sg_id g \<noteq> x \<and> x \<notin> set (connections g) \<and> x \<notin> set (inputsOrEmpty g))
   \<and> map sg_id (storyboards (handleDeleteNode x st)) = filter (\<lambda>i. i \<noteq> x) (map sg_id (storyboards st))"
proof
  show "\<forall>g \<in> set (storyboards (handleDeleteNode x st)).
      sg_id g \<noteq> x \<and> x \<notin> set (connections g) \<and> x \<notin> set (inputsOrEmpty g)"
  proof
    fix g assume "g \<in> set (storyboards (handleDeleteNode x st))"
    then obtain g0 where g0: "g = pruneNode x g0" "sg_id g0 \<noteq> x"
      by (auto simp: storyboards_handleDeleteNode)
    show "sg_id g \<noteq> x \<and> x \<notin> set (connections g) \<and> x \<notin> set (inputsOrEmpty g)"
      using g0 by (simp add: pruneNode_connections inputsOrEmpty_def [of "pruneNode x g0"] pruneNode_inputs)
  qed
next
  show "map sg_id (storyboards (handleDeleteNode x st)) = filter (\<lambda>i. i \<noteq> x) (map sg_id (storyboards st))"
    by (simp add: storyboards_handleDeleteNode filter_map comp_def)
qed

theorem removeNode_prunes_witness:
  "map sg_id (storyboards (handleDeleteNode ''a'' (mkApp exGraph))) = [''b'', ''m'', ''t'']
   \<and> ''a'' \<in> set (inputsOrEmpty (storyboards (mkApp exGraph) ! 1))
   \<and> ''a'' \<notin> set (inputsOrEmpty (storyboards (handleDeleteNode ''a'' (mkApp exGraph)) ! 0))
   \<and> ''a'' \<notin> set (connections (storyboards (handleDeleteNode ''a'' (mkApp exGraph)) ! 0))"
proof -
  have ids: "map sg_id (storyboards (mkApp exGraph)) = [''a'', ''b'', ''m'', ''t'']"
    by (simp add: mkApp_def exGraph_def mkNode_def)
  have before: "''a'' \<in> set (inputsOrEmpty (storyboards (mkApp exGraph) ! 1))"
    by (simp add: mkApp_def exGraph_def mkNode_def inputsOrEmpty_def)
  note inst = removeNode_prunes [of "''a''" "mkApp exGraph"]
  from inst have m: "map sg_id (storyboards (handleDeleteNode ''a'' (mkApp exGraph))) = [''b'', ''m'', ''t'']"
    by (simp add: ids)
  then have "length (storyboards (handleDeleteNode ''a'' (mkApp exGraph))) = 3"
    by (metis length_map length_Cons list.size(3) numeral_3_eq_3)
  then have "storyboards (handleDeleteNode ''a'' (mkApp exGraph)) ! 0
      \<in> set (storyboards (handleDeleteNode ''a'' (mkApp exGraph)))"
    by simp
  with inst have "''a'' \<notin> set (inputsOrEmpty (storyboards (handleDeleteNode ''a'' (mkApp exGraph)) ! 0))"
    "''a'' \<notin> set (connections (storyboards (handleDeleteNode ''a'' (mkApp exGraph)) ! 0))"
    by blast+
  with m before show ?thesis by simp
qed

subsection \<open>Connecting\<close>

lemma connectSource_other: "sg_id g \<noteq> a \<Longrightarrow> connectSource a b g = g"
  by (simp add: connectSource_def)

lemma connectGroup_None:
  "connectGroup a b None g =
     (if sg_id g = b \<and> a \<notin> set (inputsOrEmpty g)
      then g\<lparr>inputs := Some (inputsOrEmpty g @ [a])\<rparr> else connectSource a b g)"
  by (simp add: connectGroup_def musicFirstUrl_def)

lemma inputsOrEmpty_update [simp]: "inputsOrEmpty (g\<lparr>inputs := Some i\<rparr>) = i"
  by (simp add: inputsOrEmpty_def)

lemma connectGroup_absent_idem:
  assumes "sg_id g \<noteq> a"
  shows "connectGroup a b None (connectGroup a b None g) = connectGroup a b None g"
proof (cases "sg_id g = b \<and> a \<notin> set (inputsOrEmpty g)")
  case True
  then have 1: "connectGroup a b None g = g\<lparr>inputs := Some (inputsOrEmpty g @ [a])\<rparr>"
    by (simp add: connectGroup_None)
  have "connectGroup a b None (g\<lparr>inputs := Some (inputsOrEmpty g @ [a])\<rparr>)
        = connectSource a b (g\<lparr>inputs := Some (inputsOrEmpty g @ [a])\<rparr>)"
    by (simp add: connectGroup_None)
  also have "\<dots> = g\<lparr>inputs := Some (inputsOrEmpty g @ [a])\<rparr>"
    using assms by (simp add: connectSource_other)
  finally show ?thesis by (simp add: 1)
next
  case False
  then have "connectGroup a b None g = connectSource a b g"
    unfolding connectGroup_None by (rule if_not_P)
  then have "connectGroup a b None g = g"
    using assms by (simp add: connectSource_other)
  then show ?thesis by simp
qed

lemma handleConnect_commit:
  "a \<noteq> b \<Longrightarrow> \<not> (case findNode a (storyboards st) of None \<Rightarrow> False | Some s \<Rightarrow> b \<in> set (connections s))
   \<Longrightarrow> handleConnect a b st =
        (saveHistory st)\<lparr>storyboards := map (connectGroup a b (findNode a (storyboards st))) (storyboards st)\<rparr>"
  by (simp add: handleConnect_def Let_def)

lemma handleConnect_reject:
  "a = b \<or> (case findNode a (storyboards st) of None \<Rightarrow> False | Some s \<Rightarrow> b \<in> set (connections s))
   \<Longrightarrow> handleConnect a b st = st"
  by (auto simp add: handleConnect_def Let_def)

text \<open>
  Claim C2. \<^verbatim>\<open>connect(A,B)\<close> twice in a row leaves the same node collection, and so
  the same connections and inputs lists of every node, as \<^verbatim>\<open>connect(A,B)\<close> once; and
  when the source node already lists the target among its connections, the call returns
  the state as it was.
\<close>

theorem connect_idempotent:
  "storyboards (handleConnect a b (handleConnect a b st)) = storyboards (handleConnect a b st)
   \<and> ((\<exists>s. findNode a (storyboards st) = Some s \<and> b \<in> set (connections s))
        \<longrightarrow> handleConnect a b st = st)"
proof
  show "(\<exists>s. findNode a (storyboards st) = Some s \<and> b \<in> set (connections s))
        \<longrightarrow> handleConnect a b st = st"
    by (auto intro: handleConnect_reject)
next
  show "storyboards (handleConnect a b (handleConnect a b st)) = storyboards (handleConnect a b st)"
  proof (cases "a = b")
    case True
    then show ?thesis by (simp add: handleConnect_reject)
  next
    case ne: False
    show ?thesis
    proof (cases "findNode a (storyboards st)")
      case None
      then have absent: "\<forall>g \<in> set (storyboards st). sg_id g \<noteq> a"
        by (simp add: findNode_None_iff)
      have first: "handleConnect a b st =
          (saveHistory st)\<lparr>storyboards := map (connectGroup a b None) (storyboards st)\<rparr>"
        using ne None handleConnect_commit [of a b st] by simp
      have none': "findNode a (storyboards (handleConnect a b st)) = None"
        using None by (simp add: first findNode_map)
      have "handleConnect a b (handleConnect a b st) =
          (saveHistory (handleConnect a b st))\<lparr>storyboards :=
             map (connectGroup a b None) (storyboards (handleConnect a b st))\<rparr>"
        using ne none' handleConnect_commit [of a b "handleConnect a b st"] by simp
      then have "storyboards (handleConnect a b (handleConnect a b st)) =
          map (connectGroup a b None) (storyboards (handleConnect a b st))"
        by simp
      also have "\<dots> = map (connectGroup a b None) (map (connectGroup a b None) (storyboards st))"
        by (simp add: first)
      also have "\<dots> = map (connectGroup a b None) (storyboards st)"
        using absent by (simp add: connectGroup_absent_idem)
      finally show ?thesis by (simp add: first)
    next
      case (Some s)
      show ?thesis
      proof (cases "b \<in> set (connections s)")
        case True
        then show ?thesis using Some by (simp add: handleConnect_reject)
      next
        case False
        have ids: "sg_id s = a" using Some by (simp add: findNode_Some_id)
        have first: "handleConnect a b st =
            (saveHistory st)\<lparr>storyboards := map (connectGroup a b (Some s)) (storyboards st)\<rparr>"
          using ne Some False handleConnect_commit [of a b st] by simp
        have found: "findNode a (storyboards (handleConnect a b st)) = Some (connectGroup a b (Some s) s)"
          using Some by (simp add: first findNode_map)
        have "b \<in> set (connections (connectGroup a b (Some s) s))"
          using ids ne by (simp add: connectGroup_def connectSource_def)
        then have "handleConnect a b (handleConnect a b st) = handleConnect a b st"
          using found by (simp add: handleConnect_reject)
        then show ?thesis by simp
      qed
    qed
  qed
qed

theorem connect_idempotent_witness:
  "findNode ''a'' (storyboards (mkApp exGraph)) = Some (exGraph ! 0)
   \<and> ''b'' \<in> set (connections (exGraph ! 0))
   \<and> handleConnect ''a'' ''b'' (mkApp exGraph) = mkApp exGraph
   \<and> storyboards (handleConnect ''m'' ''b'' (handleConnect ''m'' ''b'' (mkApp exGraph)))
       = storyboards (handleConnect ''m'' ''b'' (mkApp exGraph))"
proof -
  have f: "findNode ''a'' (storyboards (mkApp exGraph)) = Some (exGraph ! 0)"
    by (simp add: mkApp_def exGraph_def mkNode_def findNode_def)
  have c: "''b'' \<in> set (connections (exGraph ! 0))"
    by (simp add: exGraph_def mkNode_def)
  from connect_idempotent [of "''a''" "''b''" "mkApp exGraph"] f c
  have "handleConnect ''a'' ''b'' (mkApp exGraph) = mkApp exGraph" by blast
  with f c connect_idempotent [of "''m''" "''b''" "mkApp exGraph"] show ?thesis by blast
qed

subsection \<open>Connect, then disconnect\<close>

lemma connections_connectSource:
  "connections (connectSource a b g) =
     (if sg_id g = a \<and> b \<notin> set (connections g) then connections g @ [b] else connections g)"
  by (simp add: connectSource_def)

lemma inputs_connectSource [simp]: "inputs (connectSource a b g) = inputs g"
  by (simp add: connectSource_def)

lemma connections_connectGroup:
  "a \<noteq> b \<Longrightarrow> connections (connectGroup a b s g) =
     (if sg_id g = a \<and> b \<notin> set (connections g) then connections g @ [b] else connections g)"
  by (simp add: connectGroup_def connections_connectSource split: option.splits)

lemma inputsOrEmpty_connectGroup:
  "inputsOrEmpty (connectGroup a b s g) =
     (if sg_id g = b \<and> ((sg_type g = Timeline \<and> musicFirstUrl s \<noteq> None) \<or> a \<notin> set (inputsOrEmpty g))
      then inputsOrEmpty g @ [a] else inputsOrEmpty g)"
  by (auto simp add: connectGroup_def inputsOrEmpty_def [of "connectSource a b g"] split: option.splits)
     (simp_all add: inputsOrEmpty_def)

lemma connections_disconnectGroup:
  "connections (disconnectGroup a b g) =
     (if sg_id g \<noteq> b \<and> sg_id g = a then filter (\<lambda>n. n \<noteq> b) (connections g) else connections g)"
  by (simp add: disconnectGroup_def)

lemma inputsOrEmpty_disconnectGroup:
  "inputsOrEmpty (disconnectGroup a b g) =
     (if sg_id g = b then filter (\<lambda>n. n \<noteq> a) (inputsOrEmpty g) else inputsOrEmpty g)"
  by (simp add: disconnectGroup_def inputsOrEmpty_def split: option.splits)

lemma roundtrip_node:
  assumes "a \<noteq> b"
      and "sg_id g = a \<longrightarrow> b \<notin> set (connections g)"
      and "sg_id g = b \<longrightarrow> a \<notin> set (inputsOrEmpty g)"
  shows "connections (disconnectGroup a b (connectGroup a b s g)) = connections g"
    and "inputsOrEmpty (disconnectGroup a b (connectGroup a b s g)) = inputsOrEmpty g"
  using assms
  by (auto simp add: connections_disconnectGroup inputsOrEmpty_disconnectGroup
        connections_connectGroup inputsOrEmpty_connectGroup filter_id_conv)

lemma storyboards_handleDisconnect:
  "storyboards (handleDisconnect a b st) = map (disconnectGroup a b) (storyboards st)"
  by (simp add: handleDisconnect_def Let_def)

text \<open>
  Claim C3. For distinct \<open>A\<close> and \<open>B\<close> that are not connected (no node \<open>A\<close> lists
  \<open>B\<close> among its connections and no node \<open>B\<close> lists \<open>A\<close> among its inputs),
  \<^verbatim>\<open>connect(A,B)\<close> followed by \<^verbatim>\<open>disconnect(A,B)\<close> gives every node, \<open>A\<close> and
  \<open>B\<close> among them, its connections and inputs lists back. An absent inputs list is read
  as the empty list, the way the code reads it (\<^verbatim>\<open>group.inputs || []\<close>).
\<close>

theorem connect_disconnect_roundtrip:
  assumes "a \<noteq> b"
      and "\<forall>g \<in> set (storyboards st).
             (sg_id g = a \<longrightarrow> b \<notin> set (connections g)) \<and> (sg_id g = b \<longrightarrow> a \<notin> set (inputsOrEmpty g))"
  shows "map (\<lambda>g. (sg_id g, connections g, inputsOrEmpty g))
           (storyboards (handleDisconnect a b (handleConnect a b st)))
         = map (\<lambda>g. (sg_id g, connections g, inputsOrEmpty g)) (storyboards st)"
proof -
  have nc: "\<not> (case findNode a (storyboards st) of None \<Rightarrow> False | Some s \<Rightarrow> b \<in> set (connections s))"
  proof (cases "findNode a (storyboards st)")
    case None
    then show ?thesis by simp
  next
    case (Some s)
    then have "sg_id s = a" "s \<in> set (storyboards st)" by (simp_all add: findNode_Some_id)
    then show ?thesis using assms(2) Some by auto
  qed
  have sb: "storyboards (handleDisconnect a b (handleConnect a b st)) =
      map (\<lambda>g. disconnectGroup a b (connectGroup a b (findNode a (storyboards st)) g)) (storyboards st)"
    using handleConnect_commit [OF assms(1) nc] by (simp add: storyboards_handleDisconnect)
  show ?thesis
    unfolding sb using assms by (simp add: roundtrip_node)
qed

theorem connect_disconnect_roundtrip_witness:
  "''m'' \<noteq> ''t''
   \<and> connections (storyboards (handleConnect ''m'' ''t'' (mkApp exGraph)) ! 2) = [''t'']
   \<and> inputs (storyboards (handleConnect ''m'' ''t'' (mkApp exGraph)) ! 3) = Some [''m'']
   \<and> map (\<lambda>g. (sg_id g, connections g, inputsOrEmpty g))
        (storyboards (handleDisconnect ''m'' ''t'' (handleConnect ''m'' ''t'' (mkApp exGraph))))
      = [(''a'', [''b''], []), (''b'', [], [''a'']), (''m'', [], []), (''t'', [], [])]"
proof -
  have ne: "''m'' \<noteq> ''t''" by simp
  have sb: "storyboards (mkApp exGraph) = exGraph" by (simp add: mkApp_def)
  have pre: "\<forall>g \<in> set (storyboards (mkApp exGraph)).
      (sg_id g = ''m'' \<longrightarrow> ''t'' \<notin> set (connections g)) \<and> (sg_id g = ''t'' \<longrightarrow> ''m'' \<notin> set (inputsOrEmpty g))"
    unfolding sb by (simp add: exGraph_def mkNode_def inputsOrEmpty_def)
  have v: "map (\<lambda>g. (sg_id g, connections g, inputsOrEmpty g)) (storyboards (mkApp exGraph))
      = [(''a'', [''b''], []), (''b'', [], [''a'']), (''m'', [], []), (''t'', [], [])]"
    unfolding sb by (simp add: exGraph_def mkNode_def inputsOrEmpty_def)
  have mid: "connections (storyboards (handleConnect ''m'' ''t'' (mkApp exGraph)) ! 2) = [''t'']"
     "inputs (storyboards (handleConnect ''m'' ''t'' (mkApp exGraph)) ! 3) = Some [''m'']"
    by (simp_all add: handleConnect_def Let_def findNode_def mkApp_def exGraph_def mkNode_def
          mkItem_def connectGroup_def connectSource_def musicFirstUrl_def inputsOrEmpty_def
          saveHistory_def)
  show ?thesis
    using connect_disconnect_roundtrip [OF ne pre] v mid by simp
qed

subsection \<open>Pasting\<close>

lemma paste_once:
  assumes "clipboard st = Some cb"
  shows "\<exists>n. storyboards (handlePaste uuid now st) = storyboards st @ [n]
           \<and> pos_x n = pos_x cb + 40 \<and> pos_y n = pos_y cb + 40
           \<and> connections n = [] \<and> inputs n = Some []
           \<and> clipboard (handlePaste uuid now st) = Some cb"
  using assms by (simp add: handlePaste_def Let_def randomUUID_def saveHistory_def)

text \<open>
  Claim C5, as the code has it. Pasting twice appends two new nodes, and both stand at
  offset \<open>(+40,+40)\<close> from the position stored in the clipboard: a paste reads the
  clipboard and does not write it, so the second paste starts from the same stored
  position as the first.
\<close>

theorem paste_twice_same_offset:
  assumes "clipboard st = Some cb"
  shows "\<exists>n1 n2. storyboards (handlePaste uuid now2 (handlePaste uuid now1 st)) = storyboards st @ [n1, n2]
           \<and> pos_x n1 = pos_x cb + 40 \<and> pos_y n1 = pos_y cb + 40
           \<and> pos_x n2 = pos_x cb + 40 \<and> pos_y n2 = pos_y cb + 40
           \<and> clipboard (handlePaste uuid now2 (handlePaste uuid now1 st)) = Some cb"
proof -
  from paste_once [OF assms, of uuid now1] obtain n1 where
    1: "storyboards (handlePaste uuid now1 st) = storyboards st @ [n1]"
       "pos_x n1 = pos_x cb + 40" "pos_y n1 = pos_y cb + 40"
       "clipboard (handlePaste uuid now1 st) = Some cb"
    by blast
  from paste_once [OF 1(4), of uuid now2] obtain n2 where
    2: "storyboards (handlePaste uuid now2 (handlePaste uuid now1 st)) = storyboards (handlePaste uuid now1 st) @ [n2]"
       "pos_x n2 = pos_x cb + 40" "pos_y n2 = pos_y cb + 40"
       "clipboard (handlePaste uuid now2 (handlePaste uuid now1 st)) = Some cb"
    by blast
  show ?thesis using 1 2 by simp
qed

theorem paste_twice_same_offset_witness:
  "clipboard exClipApp = Some (exGraph ! 0)
   \<and> length (storyboards pastedTwice) = 6
   \<and> pos_x (storyboards pastedTwice ! 4) = 140 \<and> pos_y (storyboards pastedTwice ! 4) = 340
   \<and> pos_x (storyboards pastedTwice ! 5) = 140 \<and> pos_y (storyboards pastedTwice ! 5) = 340"
proof -
  have c: "clipboard exClipApp = Some (exGraph ! 0)"
    by (simp add: exClipApp_def handleCopy_def findNode_def mkApp_def exGraph_def mkNode_def)
  have l: "length (storyboards exClipApp) = 4"
    by (simp add: exClipApp_def handleCopy_def findNode_def mkApp_def exGraph_def mkNode_def)
  from paste_twice_same_offset [OF c, of exUuid 2 1] obtain n1 n2 where
    "storyboards pastedTwice = storyboards exClipApp @ [n1, n2]"
    "pos_x n1 = pos_x (exGraph ! 0) + 40" "pos_y n1 = pos_y (exGraph ! 0) + 40"
    "pos_x n2 = pos_x (exGraph ! 0) + 40" "pos_y n2 = pos_y (exGraph ! 0) + 40"
    unfolding pastedTwice_def by blast
  then show ?thesis using c l by (simp add: nth_append exGraph_def mkNode_def)
qed

text \<open>
  The claim as stated puts the second pasted node at \<open>(+80,+80)\<close>. With the node
  \<open>a\<close>, at \<open>(100, 300)\<close>, selected and copied, the first pasted node is at
  \<open>(140, 340)\<close> and the second is not at \<open>(180, 380)\<close>.
\<close>

theorem paste_twice_counterexample:
  "length (storyboards pastedTwice) = length (storyboards exClipApp) + 2
   \<and> pos_x (storyboards pastedTwice ! 4) = pos_x (exGraph ! 0) + 40
   \<and> pos_y (storyboards pastedTwice ! 4) = pos_y (exGraph ! 0) + 40
   \<and> pos_x (storyboards pastedTwice ! 5) \<noteq> pos_x (exGraph ! 0) + 80
   \<and> pos_y (storyboards pastedTwice ! 5) \<noteq> pos_y (exGraph ! 0) + 80"
  by (simp add: pastedTwice_def exClipApp_def handleCopy_def findNode_def handlePaste_def
        randomUUID_def saveHistory_def mkApp_def exGraph_def mkNode_def)

subsection \<open>Music into a timeline\<close>

lemma connectGroup_special:
  "sg_id g = b \<Longrightarrow> sg_type g = Timeline \<Longrightarrow> musicFirstUrl s = Some u \<Longrightarrow>
   connectGroup a b s g =
     g\<lparr> inputs := Some (inputsOrEmpty g @ [a]),
        config := Some ((configOrEmpty g)\<lparr>timelineAudioUrl := Some u\<rparr>) \<rparr>"
  by (simp add: connectGroup_def)

lemma connectGroup_at_source:
  "a \<noteq> b \<Longrightarrow> sg_id g = a \<Longrightarrow> b \<notin> set (connections g) \<Longrightarrow>
   connectGroup a b s g = g\<lparr>connections := connections g @ [b]\<rparr>"
  by (simp add: connectGroup_def connectSource_def)

text \<open>
  Claim C6. When \<^verbatim>\<open>connect(source, target)\<close> commits (the two ids differ and the
  source node does not list the target yet), the source node is a music node with at least
  one item and a node with the target id is a timeline, the one update of the node
  collection gives that timeline the source appended to its inputs and the url of the
  source's first item as \<open>timelineAudioUrl\<close>, the rest of its config kept, and gives the
  source node the target appended to its connections.
\<close>

theorem connect_music_timeline_seeds_audio:
  assumes "a \<noteq> b"
      and "findNode a (storyboards st) = Some s"
      and "b \<notin> set (connections s)"
      and "sg_type s = Music"
      and "items s = it # its"
      and "i < length (storyboards st)"
      and "sg_id (storyboards st ! i) = b"
      and "sg_type (storyboards st ! i) = Timeline"
  shows "storyboards (handleConnect a b st) ! i =
           (storyboards st ! i)\<lparr>
              inputs := Some (inputsOrEmpty (storyboards st ! i) @ [a]),
              config := Some ((configOrEmpty (storyboards st ! i))\<lparr>timelineAudioUrl := Some (item_url it)\<rparr>) \<rparr>
         \<and> findNode a (storyboards (handleConnect a b st)) = Some (s\<lparr>connections := connections s @ [b]\<rparr>)
         \<and> length (storyboards (handleConnect a b st)) = length (storyboards st)"
proof -
  have nc: "\<not> (case findNode a (storyboards st) of None \<Rightarrow> False | Some s \<Rightarrow> b \<in> set (connections s))"
    using assms(2,3) by simp
  have sb: "storyboards (handleConnect a b st) = map (connectGroup a b (Some s)) (storyboards st)"
    using handleConnect_commit [OF assms(1) nc] assms(2) by simp
  have u: "musicFirstUrl (Some s) = Some (item_url it)"
    using assms(4,5) by (simp add: musicFirstUrl_def)
  have ids: "sg_id s = a" using assms(2) by (simp add: findNode_Some_id)
  have 1: "storyboards (handleConnect a b st) ! i = connectGroup a b (Some s) (storyboards st ! i)"
    using assms(6) by (simp add: sb)
  have 2: "findNode a (storyboards (handleConnect a b st)) = Some (connectGroup a b (Some s) s)"
    using assms(2) by (simp add: sb findNode_map)
  show ?thesis
    unfolding 1 2
    using connectGroup_special [OF assms(7,8) u, of a] connectGroup_at_source [OF assms(1) ids assms(3), of "Some s"]
    by (simp add: sb)
qed

theorem connect_music_timeline_seeds_audio_witness:
  "''m'' \<noteq> ''t''
   \<and> findNode ''m'' (storyboards (mkApp exGraph)) = Some (exGraph ! 2)
   \<and> sg_type (exGraph ! 2) = Music
   \<and> items (exGraph ! 2) = [mkItem ''i1'' ''blob:song'' Audio]
   \<and> sg_id (storyboards (mkApp exGraph) ! 3) = ''t''
   \<and> sg_type (storyboards (mkApp exGraph) ! 3) = Timeline
   \<and> inputs (storyboards (handleConnect ''m'' ''t'' (mkApp exGraph)) ! 3) = Some [''m'']
   \<and> map_option timelineAudioUrl (config (storyboards (handleConnect ''m'' ''t'' (mkApp exGraph)) ! 3))
        = Some (Some ''blob:song'')
   \<and> map_option connections (findNode ''m'' (storyboards (handleConnect ''m'' ''t'' (mkApp exGraph))))
        = Some [''t'']"
proof -
  have sb: "storyboards (mkApp exGraph) = exGraph" by (simp add: mkApp_def)
  have ne: "''m'' \<noteq> ''t''" by simp
  have f: "findNode ''m'' (storyboards (mkApp exGraph)) = Some (exGraph ! 2)"
    unfolding sb by (simp add: exGraph_def mkNode_def findNode_def)
  have c: "''t'' \<notin> set (connections (exGraph ! 2))" by (simp add: exGraph_def mkNode_def)
  have ty: "sg_type (exGraph ! 2) = Music" by (simp add: exGraph_def mkNode_def)
  have its: "items (exGraph ! 2) = mkItem ''i1'' ''blob:song'' Audio # []"
    by (simp add: exGraph_def mkNode_def)
  have i: "3 < length (storyboards (mkApp exGraph))" unfolding sb by (simp add: exGraph_def)
  have tid: "sg_id (storyboards (mkApp exGraph) ! 3) = ''t''"
    unfolding sb by (simp add: exGraph_def mkNode_def)
  have tty: "sg_type (storyboards (mkApp exGraph) ! 3) = Timeline"
    unfolding sb by (simp add: exGraph_def mkNode_def)
  have e: "inputsOrEmpty (storyboards (mkApp exGraph) ! 3) = []" "connections (exGraph ! 2) = []"
    unfolding sb by (simp_all add: exGraph_def mkNode_def inputsOrEmpty_def)
  have u: "item_url (mkItem ''i1'' ''blob:song'' Audio) = ''blob:song''" by (simp add: mkItem_def)
  show ?thesis
    using connect_music_timeline_seeds_audio [OF ne f c ty its i tid tty] f ty its tid tty e u
    by simp
qed

subsection \<open>Total duration of a timeline\<close>

lemma foldl_duration: "foldl (\<lambda>acc clip. acc + duration clip) a clips = a + sum_list (map duration clips)"
  by (induction clips arbitrary: a) simp_all

lemma clipsDur_sum: "clipsDur clips = sum_list (map duration clips)"
  by (simp add: clipsDur_def foldl_duration)

text \<open>
  Claim C7. The total duration of a timeline is the maximum of the sum of the clip
  durations, the duration of the audio track and 60; three clips of duration 4 with an
  audio track of at most 60 seconds give 60.
\<close>

theorem totalDuration_max:
  "totalDuration clips audioDuration = max (max (sum_list (map duration clips)) audioDuration) 60
   \<and> (map duration clips = [4, 4, 4] \<and> audioDuration \<le> 60 \<longrightarrow> totalDuration clips audioDuration = 60)"
  by (simp add: totalDuration_def clipsDur_sum)

theorem totalDuration_max_witness:
  "map duration exClips = [4, 4, 4] \<and> (0::real) \<le> 60 \<and> totalDuration exClips 0 = 60
   \<and> totalDuration exClips 75 = 75"
  using totalDuration_max [of exClips 0] totalDuration_max [of exClips 75]
  by (simp add: exClips_def mkClip_def)

subsection \<open>Clip offsets and resizing\<close>

lemma startTime_Suc: "startTime clips (Suc i) = startTime clips i + duration (clips ! i)"
  by (simp add: startTime_def)

lemma startTime_prefix: "i \<le> length clips \<Longrightarrow> startTime clips i = sum_list (map duration (take i clips))"
proof (induction i)
  case 0
  then show ?case by (simp add: startTime_def)
next
  case (Suc i)
  then show ?case by (simp add: startTime_Suc take_Suc_conv_app_nth)
qed

lemma resize_nth:
  assumes "distinct (map clip_id clips)" "i < length clips" "j < length clips"
  shows "resizeMouseMove (Some (resizeMouseDown (clips ! i) x0)) pps x1 clips ! j =
           (if j = i then (clips ! i)\<lparr>duration := max 0.5 (duration (clips ! i) + (x1 - x0) / pps)\<rparr>
            else clips ! j)"
proof -
  have "clip_id (clips ! j) = clip_id (clips ! i) \<longleftrightarrow> j = i"
    using assms nth_eq_iff_index_eq [of "map clip_id clips" j i] by simp
  then show ?thesis
    using assms by (simp add: resizeMouseMove_def resizeMouseDown_def Let_def)
qed

lemma resize_length [simp]: "length (resizeMouseMove rs pps x1 clips) = length clips"
  by (simp add: resizeMouseMove_def Let_def split: option.splits)

lemma startTime_cong:
  "j \<le> length xs \<Longrightarrow> j \<le> length ys \<Longrightarrow> (\<forall>k < j. duration (xs ! k) = duration (ys ! k))
   \<Longrightarrow> startTime xs j = startTime ys j"
  by (induction j) (simp_all add: startTime_def)

lemma startTime_shift:
  assumes "length ys = length xs" "i < length xs"
      and "\<forall>k < length xs. k \<noteq> i \<longrightarrow> duration (ys ! k) = duration (xs ! k)"
  shows "i < j \<Longrightarrow> j \<le> length xs \<Longrightarrow>
         startTime ys j = startTime xs j + (duration (ys ! i) - duration (xs ! i))"
proof (induction j)
  case 0
  then show ?case by simp
next
  case (Suc j)
  show ?case
  proof (cases "j = i")
    case True
    have "startTime ys i = startTime xs i"
      using assms by (intro startTime_cong) auto
    then show ?thesis using True by (simp add: startTime_Suc)
  next
    case False
    then have "i < j" using Suc.prems by simp
    then show ?thesis using Suc assms False by (simp add: startTime_Suc)
  qed
qed

text \<open>
  Claim C8. The start offset of every clip is the sum of the durations of the clips
  before it. In a clip list with pairwise distinct ids, played at a positive number of
  pixels per second, a mouse move while clip \<open>i\<close> is being resized changes clip \<open>i\<close>
  only, and only its duration, which becomes
  \<open>max 0.5 (original duration + \<Delta>pixels / pixelsPerSecond)\<close>; the start offsets of the
  clips up to and including \<open>i\<close> stay, and those of the clips after \<open>i\<close> move by the
  change of duration.
\<close>

theorem resize_clip_offsets:
  assumes "distinct (map clip_id clips)" and "i < length clips" and "0 < pps"
  shows "(\<forall>j \<le> length clips. startTime clips j = sum_list (map duration (take j clips)))
       \<and> length (resizeMouseMove (Some (resizeMouseDown (clips ! i) x0)) pps x1 clips) = length clips
       \<and> resizeMouseMove (Some (resizeMouseDown (clips ! i) x0)) pps x1 clips ! i
           = (clips ! i)\<lparr>duration := max 0.5 (duration (clips ! i) + (x1 - x0) / pps)\<rparr>
       \<and> (\<forall>j < length clips. j \<noteq> i \<longrightarrow>
             resizeMouseMove (Some (resizeMouseDown (clips ! i) x0)) pps x1 clips ! j = clips ! j)
       \<and> (\<forall>j \<le> i. startTime (resizeMouseMove (Some (resizeMouseDown (clips ! i) x0)) pps x1 clips) j
                     = startTime clips j)
       \<and> (\<forall>j. i < j \<and> j \<le> length clips \<longrightarrow>
             startTime (resizeMouseMove (Some (resizeMouseDown (clips ! i) x0)) pps x1 clips) j
               = startTime clips j
                 + (max 0.5 (duration (clips ! i) + (x1 - x0) / pps) - duration (clips ! i)))"
proof -
  let ?new = "resizeMouseMove (Some (resizeMouseDown (clips ! i) x0)) pps x1 clips"
  have nth: "\<And>j. j < length clips \<Longrightarrow> ?new ! j =
      (if j = i then (clips ! i)\<lparr>duration := max 0.5 (duration (clips ! i) + (x1 - x0) / pps)\<rparr>
       else clips ! j)"
    using assms(1,2) by (rule resize_nth)
  have a: "\<forall>j \<le> length clips. startTime clips j = sum_list (map duration (take j clips))"
    by (simp add: startTime_prefix)
  have b: "\<forall>j \<le> i. startTime ?new j = startTime clips j"
  proof (intro allI impI)
    fix j assume "j \<le> i"
    then show "startTime ?new j = startTime clips j"
      using assms(2) by (intro startTime_cong) (auto simp: nth)
  qed
  have c: "\<forall>j. i < j \<and> j \<le> length clips \<longrightarrow> startTime ?new j = startTime clips j
        + (max 0.5 (duration (clips ! i) + (x1 - x0) / pps) - duration (clips ! i))"
  proof (intro allI impI)
    fix j assume j: "i < j \<and> j \<le> length clips"
    have "startTime ?new j = startTime clips j + (duration (?new ! i) - duration (clips ! i))"
      using j assms(2) by (intro startTime_shift) (auto simp: nth)
    then show "startTime ?new j = startTime clips j
        + (max 0.5 (duration (clips ! i) + (x1 - x0) / pps) - duration (clips ! i))"
      using assms(2) by (simp add: nth)
  qed
  show ?thesis using a b c assms(2) by (simp add: nth)
qed

theorem resize_clip_offsets_witness:
  "distinct (map clip_id exClips) \<and> (0::nat) < length exClips \<and> (0::real) < 40
   \<and> map duration exClips = [4, 4, 4]
   \<and> startTime exClips 1 = 4
   \<and> duration (resizeMouseMove (Some (resizeMouseDown (exClips ! 0) 100)) 40 180 exClips ! 0) = 6
   \<and> resizeMouseMove (Some (resizeMouseDown (exClips ! 0) 100)) 40 180 exClips ! 1 = exClips ! 1
   \<and> startTime (resizeMouseMove (Some (resizeMouseDown (exClips ! 0) 100)) 40 180 exClips) 0 = 0
   \<and> startTime (resizeMouseMove (Some (resizeMouseDown (exClips ! 0) 100)) 40 180 exClips) 1 = 6
   \<and> startTime (resizeMouseMove (Some (resizeMouseDown (exClips ! 0) 100)) 40 180 exClips) 2 = 10"
proof -
  have d: "distinct (map clip_id exClips)" by (simp add: exClips_def mkClip_def)
  have l: "0 < length exClips" "length exClips = 3" by (simp_all add: exClips_def)
  have p: "(0::real) < 40" by simp
  have durs: "map duration exClips = [4, 4, 4]" "duration (exClips ! 0) = 4"
    by (simp_all add: exClips_def mkClip_def)
  have s0: "startTime exClips 0 = 0" "startTime exClips 1 = 4" "startTime exClips 2 = 8"
    by (simp_all add: startTime_def exClips_def mkClip_def numeral_2_eq_2)
  note r = resize_clip_offsets [OF d l(1) p, of 100 180]
  let ?new = "resizeMouseMove (Some (resizeMouseDown (exClips ! 0) 100)) 40 180 exClips"
  from r have n0: "?new ! 0 = (exClips ! 0)\<lparr>duration := max 0.5 (duration (exClips ! 0) + (180 - 100) / 40)\<rparr>"
    by blast
  from r l have n1: "?new ! 1 = exClips ! 1" by simp
  from r have st0: "startTime ?new 0 = startTime exClips 0" by blast
  from r l have st1: "startTime ?new 1 = startTime exClips 1
       + (max 0.5 (duration (exClips ! 0) + (180 - 100) / 40) - duration (exClips ! 0))"
    by simp
  from r l have st2: "startTime ?new 2 = startTime exClips 2
       + (max 0.5 (duration (exClips ! 0) + (180 - 100) / 40) - duration (exClips ! 0))"
    by simp
  have v: "duration (?new ! 0) = 6" "startTime ?new 0 = 0" "startTime ?new 1 = 6" "startTime ?new 2 = 10"
    unfolding n0 st0 st1 st2 using s0 durs by simp_all
  show ?thesis
    using d l p durs s0 n1 v by simp
qed

subsection \<open>A batch of clip generations\<close>

lemma refsOk_Cons:
  "refsOk h (g # gs) \<longleftrightarrow> refOk h g \<and> refsOk h gs"
  by (simp add: refsOk_def)

lemma refsOk_Nil [simp]: "refsOk h []"
  by (simp add: refsOk_def)

lemma refOk_append: "refOk h g \<Longrightarrow> refOk (h @ ys) g"
  by (auto simp: refOk_def split: option.splits)

lemma refsOk_append: "refsOk h sb \<Longrightarrow> refsOk (h @ ys) sb"
  by (induction sb) (simp_all add: refsOk_Cons refOk_append)

lemma clipsOf_append:
  "refOk h g \<Longrightarrow> clipsOf (h @ ys) g = clipsOf h g"
  by (auto simp: clipsOf_def refOk_def nth_append split: option.splits)

lemma clipsOf_append_all: "refsOk h sb \<Longrightarrow> map (clipsOf (h @ ys)) sb = map (clipsOf h) sb"
  by (induction sb) (simp_all add: refsOk_Cons clipsOf_append)

lemma clipsRef_config:
  "clipsRef (g\<lparr>config := Some (c\<lparr>timelineClips := r\<rparr>)\<rparr>) = r"
  by (simp add: clipsRef_def)

lemma updateClips_other: "sg_id g \<noteq> a \<Longrightarrow> updateClips a f g h = (g, h)"
  by (simp add: updateClips_def)

lemma updateClips_None:
  "sg_id g = a \<Longrightarrow> clipsRef g = None \<Longrightarrow>
   updateClips a f g h = (g\<lparr>config := Some ((configOrEmpty g)\<lparr>timelineClips := None\<rparr>)\<rparr>, h)"
  by (simp add: updateClips_def)

lemma updateClips_Some:
  "sg_id g = a \<Longrightarrow> clipsRef g = Some r \<Longrightarrow>
   updateClips a f g h =
     (g\<lparr>config := Some ((configOrEmpty g)\<lparr>timelineClips := Some (length h)\<rparr>)\<rparr>, h @ [map f (h ! r)])"
  by (simp add: updateClips_def allocClips_def)

lemma updateClips_spec:
  assumes "refOk h g"
      and "updateClips a f g h = (g', h')"
  shows "(\<exists>ys. h' = h @ ys) \<and> sg_id g' = sg_id g
       \<and> refOk h' g'
       \<and> clipsOf h' g' = (if sg_id g = a then map_option (map f) (clipsOf h g) else clipsOf h g)"
proof (cases "sg_id g = a")
  case False
  then have eq: "g' = g" "h' = h" using assms(2) by (simp_all add: updateClips_other)
  show ?thesis unfolding eq using assms(1) False by simp
next
  case True
  show ?thesis
  proof (cases "clipsRef g")
    case None
    then have eq: "g' = g\<lparr>config := Some ((configOrEmpty g)\<lparr>timelineClips := None\<rparr>)\<rparr>" "h' = h"
      using assms(2) True by (simp_all add: updateClips_None)
    show ?thesis unfolding eq using True None by (simp add: clipsRef_config clipsOf_def refOk_def)
  next
    case (Some r)
    then have eq: "g' = g\<lparr>config := Some ((configOrEmpty g)\<lparr>timelineClips := Some (length h)\<rparr>)\<rparr>"
        "h' = h @ [map f (h ! r)]"
      using assms(2) True by (simp_all add: updateClips_Some)
    show ?thesis unfolding eq using True Some assms(1)
      by (simp add: clipsRef_config clipsOf_def refOk_def nth_append)
  qed
qed

lemma mapNodes_updateClips:
  "refsOk h sb \<Longrightarrow> mapNodes (updateClips a f) sb h = (sb', h') \<Longrightarrow>
   (\<exists>ys. h' = h @ ys) \<and> map sg_id sb' = map sg_id sb \<and> refsOk h' sb'
   \<and> map (clipsOf h') sb' =
       map (\<lambda>g. if sg_id g = a then map_option (map f) (clipsOf h g) else clipsOf h g) sb"
proof (induction sb arbitrary: h sb' h')
  case Nil
  then show ?case by simp
next
  case (Cons g gs)
  obtain g1 h1 where s1: "updateClips a f g h = (g1, h1)" by (cases "updateClips a f g h")
  obtain gs2 h2 where s2: "mapNodes (updateClips a f) gs h1 = (gs2, h2)"
    by (cases "mapNodes (updateClips a f) gs h1")
  from Cons.prems(2) s1 s2 have res: "sb' = g1 # gs2" "h' = h2" by simp_all
  from Cons.prems(1) have okg: "refOk h g"
    and okgs: "refsOk h gs" by (simp_all add: refsOk_Cons)
  from updateClips_spec [OF okg s1] obtain ys1 where
    h1: "h1 = h @ ys1" and id1: "sg_id g1 = sg_id g"
    and ok1: "refOk h1 g1"
    and v1: "clipsOf h1 g1 = (if sg_id g = a then map_option (map f) (clipsOf h g) else clipsOf h g)"
    by blast
  have okgs1: "refsOk h1 gs" using okgs h1 by (simp add: refsOk_append)
  from Cons.IH [OF okgs1 s2] obtain ys2 where
    h2: "h2 = h1 @ ys2" and ids2: "map sg_id gs2 = map sg_id gs" and ok2: "refsOk h2 gs2"
    and v2: "map (clipsOf h2) gs2 =
       map (\<lambda>g. if sg_id g = a then map_option (map f) (clipsOf h1 g) else clipsOf h1 g) gs"
    by blast
  have same: "map (clipsOf h1) gs = map (clipsOf h) gs"
    using okgs h1 by (simp add: clipsOf_append_all)
  then have v2': "map (clipsOf h2) gs2 =
       map (\<lambda>g. if sg_id g = a then map_option (map f) (clipsOf h g) else clipsOf h g) gs"
    using v2 by (auto simp: map_eq_conv)
  have v1': "clipsOf h2 g1 = (if sg_id g = a then map_option (map f) (clipsOf h g) else clipsOf h g)"
    using v1 ok1 h2 by (simp add: clipsOf_append)
  have ok1': "refOk h2 g1"
    using ok1 h2 by (simp add: refOk_append)
  show ?case
    unfolding res using h1 h2 id1 ids2 ok2 ok1' v1' v2' by (simp add: refsOk_Cons)
qed

lemma map_eq_nth: "map f xs = map g ys \<Longrightarrow> i < length xs \<Longrightarrow> f (xs ! i) = g (ys ! i)"
  by (metis length_map nth_map)

lemma settleAll_Cons_fun:
  "settleAll gen k (item # rest) =
     (\<lambda>c. settleAll gen (Suc k) rest (settleClip (gi_clipId item) (clipOutcome gen k item) c))"
  by (rule ext) simp

lemma generateClips_view:
  "refsOk (heap st) (storyboards st) \<Longrightarrow>
   refsOk (heap (generateClips gen a k todo st)) (storyboards (generateClips gen a k todo st))
   \<and> map sg_id (storyboards (generateClips gen a k todo st)) = map sg_id (storyboards st)
   \<and> map (clipsOf (heap (generateClips gen a k todo st))) (storyboards (generateClips gen a k todo st))
       = map (\<lambda>g. if sg_id g = a then map_option (map (settleAll gen k todo)) (clipsOf (heap st) g)
                   else clipsOf (heap st) g) (storyboards st)"
proof (induction todo arbitrary: k st)
  case Nil
  have "settleAll gen k [] = id" by (rule ext) simp
  with Nil show ?case by (simp add: option.map_id0)
next
  case (Cons item rest)
  let ?f = "settleClip (gi_clipId item) (clipOutcome gen k item)"
  obtain sb1 h1 where step: "mapNodes (updateClips a ?f) (storyboards st) (heap st) = (sb1, h1)"
    by (cases "mapNodes (updateClips a ?f) (storyboards st) (heap st)")
  let ?st1 = "st\<lparr>storyboards := sb1, heap := h1\<rparr>"
  have unfold: "generateClips gen a k (item # rest) st = generateClips gen a (Suc k) rest ?st1"
    using step by simp
  from mapNodes_updateClips [OF Cons.prems step] have
    ids1: "map sg_id sb1 = map sg_id (storyboards st)" and ok1: "refsOk h1 sb1"
    and v1: "map (clipsOf h1) sb1 =
       map (\<lambda>g. if sg_id g = a then map_option (map ?f) (clipsOf (heap st) g) else clipsOf (heap st) g)
         (storyboards st)"
    by blast+
  have ok1': "refsOk (heap ?st1) (storyboards ?st1)" using ok1 by simp
  note ih = Cons.IH [OF ok1', of "Suc k"]
  have len: "length sb1 = length (storyboards st)" using ids1 by (metis length_map)
  let ?S = "generateClips gen a (Suc k) rest ?st1"
  from ih have A: "refsOk (heap ?S) (storyboards ?S)"
    and B: "map sg_id (storyboards ?S) = map sg_id sb1"
    and C: "map (clipsOf (heap ?S)) (storyboards ?S)
       = map (\<lambda>g. if sg_id g = a then map_option (map (settleAll gen (Suc k) rest)) (clipsOf h1 g)
                   else clipsOf h1 g) sb1"
    by simp_all
  have D: "map (\<lambda>g. if sg_id g = a then map_option (map (settleAll gen (Suc k) rest)) (clipsOf h1 g)
                   else clipsOf h1 g) sb1
      = map (\<lambda>g. if sg_id g = a then map_option (map (settleAll gen k (item # rest))) (clipsOf (heap st) g)
                   else clipsOf (heap st) g) (storyboards st)"
  proof (rule nth_equalityI)
    show "length (map (\<lambda>g. if sg_id g = a then map_option (map (settleAll gen (Suc k) rest)) (clipsOf h1 g)
                   else clipsOf h1 g) sb1)
        = length (map (\<lambda>g. if sg_id g = a then map_option (map (settleAll gen k (item # rest))) (clipsOf (heap st) g)
                   else clipsOf (heap st) g) (storyboards st))"
      using len by simp
  next
    fix i
    assume "i < length (map (\<lambda>g. if sg_id g = a then map_option (map (settleAll gen (Suc k) rest)) (clipsOf h1 g)
                   else clipsOf h1 g) sb1)"
    then have i: "i < length sb1" "i < length (storyboards st)" using len by simp_all
    have idi: "sg_id (sb1 ! i) = sg_id (storyboards st ! i)"
      using map_eq_nth [OF ids1 i(1)] .
    have vi: "clipsOf h1 (sb1 ! i) =
        (if sg_id (storyboards st ! i) = a then map_option (map ?f) (clipsOf (heap st) (storyboards st ! i))
         else clipsOf (heap st) (storyboards st ! i))"
      using map_eq_nth [OF v1 i(1)] .
    show "map (\<lambda>g. if sg_id g = a then map_option (map (settleAll gen (Suc k) rest)) (clipsOf h1 g)
                   else clipsOf h1 g) sb1 ! i
        = map (\<lambda>g. if sg_id g = a then map_option (map (settleAll gen k (item # rest))) (clipsOf (heap st) g)
                   else clipsOf (heap st) g) (storyboards st) ! i"
      using i idi vi by (simp add: option.map_comp comp_def settleAll_Cons_fun)
  qed
  show ?case
    unfolding unfold
  proof (intro conjI)
    show "refsOk (heap ?S) (storyboards ?S)" by (rule A)
    show "map sg_id (storyboards ?S) = map sg_id (storyboards st)"
      using B ids1 by (rule trans)
    show "map (clipsOf (heap ?S)) (storyboards ?S)
       = map (\<lambda>g. if sg_id g = a then map_option (map (settleAll gen k (item # rest))) (clipsOf (heap st) g)
                   else clipsOf (heap st) g) (storyboards st)"
      using C D by (rule trans)
  qed
qed

lemma clip_id_settleClip [simp]: "clip_id (settleClip x out c) = clip_id c"
  by (simp add: settleClip_def settled_def split: outcome.splits)

lemma settleAll_untouched:
  "clip_id c \<notin> gi_clipId ` set todo \<Longrightarrow> settleAll gen k todo c = c"
proof (induction todo arbitrary: k c)
  case Nil
  then show ?case by simp
next
  case (Cons item rest)
  then have "settleClip (gi_clipId item) (clipOutcome gen k item) c = c"
    by (simp add: settleClip_def)
  then show ?case using Cons by simp
qed

lemma settleAll_own:
  "distinct (map gi_clipId todo) \<Longrightarrow> j < length todo \<Longrightarrow> clip_id c = gi_clipId (todo ! j) \<Longrightarrow>
   settleAll gen k todo c = settled (clipOutcome gen (k + j) (todo ! j)) c"
proof (induction todo arbitrary: k j c)
  case Nil
  then show ?case by simp
next
  case (Cons item rest)
  show ?case
  proof (cases j)
    case 0
    then have own: "settleClip (gi_clipId item) (clipOutcome gen k item) c = settled (clipOutcome gen k item) c"
      using Cons.prems by (simp add: settleClip_def)
    have "clip_id (settled (clipOutcome gen k item) c) \<notin> gi_clipId ` set rest"
      using Cons.prems 0 by (simp add: settled_def split: outcome.splits)
    then show ?thesis using 0 own by (simp add: settleAll_untouched)
  next
    case (Suc j')
    have "rest ! j' \<in> set rest" using Cons.prems Suc by simp
    then have "gi_clipId (rest ! j') \<in> gi_clipId ` set rest" by (rule imageI)
    moreover have "gi_clipId item \<notin> gi_clipId ` set rest" using Cons.prems(1) by simp
    moreover have "clip_id c = gi_clipId (rest ! j')" using Cons.prems(3) Suc by simp
    ultimately have ne: "clip_id c \<noteq> gi_clipId item" by metis
    then have skip: "settleClip (gi_clipId item) (clipOutcome gen k item) c = c"
      by (simp add: settleClip_def)
    have "settleAll gen (Suc k) rest c = settled (clipOutcome gen (Suc k + j') (rest ! j')) c"
      using Cons.prems Suc by (intro Cons.IH) simp_all
    then show ?thesis using Suc skip by simp
  qed
qed

text \<open>
  The queue that \<^verbatim>\<open>handleGenerateTimeline\<close> builds carries the identifiers drawn while
  planning, in order: with a supply that never repeats, its clip ids are distinct.
\<close>

lemma planClips_ids:
  "planClips uuid r i scenes (h, c, todo) = (h2, c2, todo2) \<Longrightarrow>
   \<exists>new. todo2 = todo @ new \<and> map gi_clipId new = map uuid [c..<c2] \<and> c \<le> c2"
proof (induction scenes arbitrary: i h c todo)
  case Nil
  then show ?case by simp
next
  case (Cons scene rest)
  let ?sid = "''scene-'' @ showNat i"
  show ?case
  proof (cases "list_ex (\<lambda>cl. sceneId cl = ?sid \<and> status cl = Done) (h ! r)
               \<or> imageUrl scene = None \<or> imageUrl scene = Some []")
    case True
    then have "planClips uuid r i (scene # rest) (h, c, todo) = planClips uuid r (Suc i) rest (h, c, todo)"
      by (auto simp: Let_def split: option.splits)
    then show ?thesis using Cons.prems Cons.IH by simp
  next
    case False
    then obtain img where img: "imageUrl scene = Some img" "img \<noteq> []"
      by (cases "imageUrl scene") auto
    let ?item = "\<lparr> gi_index = i, gi_scene = scene, gi_clipId = uuid c \<rparr>"
    have "planClips uuid r i (scene # rest) (h, c, todo) =
        planClips uuid r (Suc i) rest
          (pushClip r (placeholderClip (uuid c) ?sid img scene) h, Suc c, todo @ [?item])"
      using False img by (simp add: Let_def)
    then have "planClips uuid r (Suc i) rest
          (pushClip r (placeholderClip (uuid c) ?sid img scene) h, Suc c, todo @ [?item]) = (h2, c2, todo2)"
      using Cons.prems by simp
    from Cons.IH [OF this] obtain new where
      new: "todo2 = (todo @ [?item]) @ new" "map gi_clipId new = map uuid [Suc c..<c2]" "Suc c \<le> c2"
      by blast
    have "[c..<c2] = c # [Suc c..<c2]" using new(3) by (simp add: upt_conv_Cons)
    then have "map gi_clipId (?item # new) = map uuid [c..<c2]" using new(2) by simp
    then show ?thesis using new(1,3) by (intro exI [of _ "?item # new"]) simp
  qed
qed

lemma planTimeline_distinct:
  assumes "inj uuid" and "planTimeline uuid agentId agent scenes st = (todo, st')"
  shows "distinct (map gi_clipId todo)"
proof -
  obtain r h1 where a: "(case clipsRef agent of Some r \<Rightarrow> (r, heap st) | None \<Rightarrow> allocClips [] (heap st)) = (r, h1)"
    by (cases "case clipsRef agent of Some r \<Rightarrow> (r, heap st) | None \<Rightarrow> allocClips [] (heap st)")
  obtain h2 c2 todo2 where p: "planClips uuid r 0 scenes (h1, uuid_ctr st, []) = (h2, c2, todo2)"
    by (cases "planClips uuid r 0 scenes (h1, uuid_ctr st, [])") auto
  have "todo = todo2"
    using assms(2) a p by (simp add: planTimeline_def split: prod.splits)
  moreover from planClips_ids [OF p] have "map gi_clipId todo2 = map uuid [uuid_ctr st..<c2]" by simp
  moreover have "distinct (map uuid [uuid_ctr st..<c2])"
    using assms(1) by (simp add: distinct_map inj_on_def inj_def)
  ultimately show ?thesis by simp
qed

text \<open>
  Claim C9. In a batch of clip generations over queued scenes with pairwise distinct clip
  ids, every clip of the timeline ends as its own request ends and as no other request
  does: a clip whose request is rejected with a message has status \<open>Error\<close> and the label
  \<open>Error: \<close> followed by the message, a clip whose request resolves has status
  \<open>Done\<close> and the url, and a clip that is not in the batch is unchanged. The loop is a
  total function of the queue, so a rejection does not end the batch: the clips queued
  after it are settled like those before it.
\<close>

theorem batch_failure_is_local:
  assumes "refsOk (heap st) (storyboards st)"
      and "distinct (map gi_clipId todo)"
      and "i < length (storyboards st)"
      and "sg_id (storyboards st ! i) = agentId"
      and "clipsOf (heap st) (storyboards st ! i) = Some clips"
      and "j < length todo"
      and "n < length clips"
      and "clip_id (clips ! n) = gi_clipId (todo ! j)"
  shows "\<exists>clips'.
           clipsOf (heap (generateClips gen agentId 0 todo st))
                   (storyboards (generateClips gen agentId 0 todo st) ! i) = Some clips'
         \<and> length clips' = length clips
         \<and> clips' ! n = settled (clipOutcome gen j (todo ! j)) (clips ! n)
         \<and> (\<forall>url. clipOutcome gen j (todo ! j) = Resolved url \<longrightarrow>
               status (clips' ! n) = Done \<and> videoUrl (clips' ! n) = url)
         \<and> (\<forall>msg. clipOutcome gen j (todo ! j) = Rejected (Some msg) \<and> msg \<noteq> [] \<longrightarrow>
               status (clips' ! n) = Error \<and> clip_prompt (clips' ! n) = ''Error: '' @ msg)
         \<and> (\<forall>m < length clips. \<forall>l < length todo.
               clip_id (clips ! m) = gi_clipId (todo ! l) \<longrightarrow>
               clips' ! m = settled (clipOutcome gen l (todo ! l)) (clips ! m))
         \<and> (\<forall>m < length clips. clip_id (clips ! m) \<notin> gi_clipId ` set todo \<longrightarrow> clips' ! m = clips ! m)"
proof -
  let ?st' = "generateClips gen agentId 0 todo st"
  from generateClips_view [OF assms(1), of gen agentId 0 todo] have
    ids: "map sg_id (storyboards ?st') = map sg_id (storyboards st)"
    and v: "map (clipsOf (heap ?st')) (storyboards ?st')
       = map (\<lambda>g. if sg_id g = agentId then map_option (map (settleAll gen 0 todo)) (clipsOf (heap st) g)
                   else clipsOf (heap st) g) (storyboards st)"
    by blast+
  have len: "length (storyboards ?st') = length (storyboards st)" using ids by (metis length_map)
  have "clipsOf (heap ?st') (storyboards ?st' ! i)
      = (if sg_id (storyboards st ! i) = agentId
         then map_option (map (settleAll gen 0 todo)) (clipsOf (heap st) (storyboards st ! i))
         else clipsOf (heap st) (storyboards st ! i))"
    using map_eq_nth [OF v, of i] assms(3) len by simp
  then have res: "clipsOf (heap ?st') (storyboards ?st' ! i) = Some (map (settleAll gen 0 todo) clips)"
    using assms(4,5) by simp
  have own: "\<And>m l. m < length clips \<Longrightarrow> l < length todo \<Longrightarrow> clip_id (clips ! m) = gi_clipId (todo ! l)
      \<Longrightarrow> map (settleAll gen 0 todo) clips ! m = settled (clipOutcome gen l (todo ! l)) (clips ! m)"
    using settleAll_own [OF assms(2), of _ _ gen 0] by simp
  have other: "\<And>m. m < length clips \<Longrightarrow> clip_id (clips ! m) \<notin> gi_clipId ` set todo
      \<Longrightarrow> map (settleAll gen 0 todo) clips ! m = clips ! m"
    by (simp add: settleAll_untouched)
  have n: "map (settleAll gen 0 todo) clips ! n = settled (clipOutcome gen j (todo ! j)) (clips ! n)"
    using own [OF assms(7,6,8)] .
  have ok: "\<forall>url. clipOutcome gen j (todo ! j) = Resolved url \<longrightarrow>
      status (map (settleAll gen 0 todo) clips ! n) = Done \<and> videoUrl (map (settleAll gen 0 todo) clips ! n) = url"
    unfolding n by (simp add: settled_def)
  have bad: "\<forall>msg. clipOutcome gen j (todo ! j) = Rejected (Some msg) \<and> msg \<noteq> [] \<longrightarrow>
      status (map (settleAll gen 0 todo) clips ! n) = Error
      \<and> clip_prompt (map (settleAll gen 0 todo) clips ! n) = ''Error: '' @ msg"
    unfolding n by (simp add: settled_def)
  show ?thesis
    using res n ok bad own other by (intro exI [of _ "map (settleAll gen 0 todo) clips"]) simp
qed

lemmas ex_batch_defs =
  exBatchApp_def mkApp_def mkNode_def findNode_def emptyConfig_def
  mkScene_def exScenes_def clipsRef_def clipsOf_def exUuid_def exService_def showNat.simps digitChar_def
  pushClip_def placeholderClip_def showPlaceholders_def allocClips_def configOrEmpty_def
  updateClips_def settleClip_def settled_def clipOutcome_def planTimeline_def

theorem batch_failure_is_local_witness:
  "refsOk (heap (snd exPlanned)) (storyboards (snd exPlanned))
   \<and> map gi_clipId (fst exPlanned) = [''u'', ''uu'', ''uuu'']
   \<and> sg_id (storyboards (snd exPlanned) ! 1) = ''t''
   \<and> map_option (map status) (clipsOf (heap (snd exPlanned)) (storyboards (snd exPlanned) ! 1))
        = Some [Generating, Generating, Generating]
   \<and> clipOutcome exService 1 (fst exPlanned ! 1) = Rejected (Some ''quota exceeded'')
   \<and> map_option (\<lambda>cs. (status (cs ! 1), clip_prompt (cs ! 1)))
        (clipsOf (heap exBatchLoop) (storyboards exBatchLoop ! 1))
        = Some (Error, ''Error: quota exceeded'')
   \<and> map_option (map status) (clipsOf (heap exBatchDone) (storyboards exBatchDone ! 1))
        = Some [Done, Error, Done]
   \<and> map_option (map clip_prompt) (clipsOf (heap exBatchDone) (storyboards exBatchDone ! 1))
        = Some [''dawn'', ''Error: quota exceeded'', ''dusk'']"
proof -
  have todo: "map gi_clipId (fst exPlanned) = [''u'', ''uu'', ''uuu'']"
    by (simp add: exPlanned_def ex_batch_defs)
  have len: "length (fst exPlanned) = 3" using todo by (metis length_map length_Cons list.size(3) numeral_3_eq_3)
  have ok: "refsOk (heap (snd exPlanned)) (storyboards (snd exPlanned))"
    by (simp add: exPlanned_def refsOk_def refOk_def ex_batch_defs)
  have dist: "distinct (map gi_clipId (fst exPlanned))" unfolding todo by simp
  have i: "1 < length (storyboards (snd exPlanned))"
    by (simp add: exPlanned_def ex_batch_defs)
  have aid: "sg_id (storyboards (snd exPlanned) ! 1) = ''t''"
    by (simp add: exPlanned_def ex_batch_defs)
  have clips: "clipsOf (heap (snd exPlanned)) (storyboards (snd exPlanned) ! 1)
      = Some [placeholderClip ''u'' ''scene-0'' ''data:1'' (exScenes ! 0),
              placeholderClip ''uu'' ''scene-1'' ''data:2'' (exScenes ! 1),
              placeholderClip ''uuu'' ''scene-2'' ''data:3'' (exScenes ! 2)]"
    by (simp add: exPlanned_def ex_batch_defs)
  have j: "1 < length (fst exPlanned)" using len by simp
  have n: "1 < length [placeholderClip ''u'' ''scene-0'' ''data:1'' (exScenes ! 0),
              placeholderClip ''uu'' ''scene-1'' ''data:2'' (exScenes ! 1),
              placeholderClip ''uuu'' ''scene-2'' ''data:3'' (exScenes ! 2)]" by simp
  have own: "clip_id ([placeholderClip ''u'' ''scene-0'' ''data:1'' (exScenes ! 0),
              placeholderClip ''uu'' ''scene-1'' ''data:2'' (exScenes ! 1),
              placeholderClip ''uuu'' ''scene-2'' ''data:3'' (exScenes ! 2)] ! 1) = gi_clipId (fst exPlanned ! 1)"
    using map_eq_nth [of gi_clipId "fst exPlanned" id "[''u'', ''uu'', ''uuu'']" 1] todo j
    by (simp add: placeholderClip_def)
  have out: "clipOutcome exService 1 (fst exPlanned ! 1) = Rejected (Some ''quota exceeded'')"
    by (simp add: clipOutcome_def exService_def)
  from batch_failure_is_local [OF ok dist i aid clips j n own, of exService]
  obtain clips' where
    c: "clipsOf (heap exBatchLoop) (storyboards exBatchLoop ! 1) = Some clips'"
    and bad: "\<forall>msg. clipOutcome exService 1 (fst exPlanned ! 1) = Rejected (Some msg) \<and> msg \<noteq> [] \<longrightarrow>
               status (clips' ! 1) = Error \<and> clip_prompt (clips' ! 1) = ''Error: '' @ msg"
    unfolding exBatchLoop_def by blast
  from bad out have "status (clips' ! 1) = Error \<and> clip_prompt (clips' ! 1) = ''Error: '' @ ''quota exceeded''"
    by blast
  then have loop: "map_option (\<lambda>cs. (status (cs ! 1), clip_prompt (cs ! 1)))
        (clipsOf (heap exBatchLoop) (storyboards exBatchLoop ! 1)) = Some (Error, ''Error: quota exceeded'')"
    using c by simp
  have whole: "map_option (map status) (clipsOf (heap exBatchDone) (storyboards exBatchDone ! 1))
        = Some [Done, Error, Done]"
     "map_option (map clip_prompt) (clipsOf (heap exBatchDone) (storyboards exBatchDone ! 1))
        = Some [''dawn'', ''Error: quota exceeded'', ''dusk'']"
    by (simp_all add: exBatchDone_def handleGenerateTimeline_def ex_batch_defs)
  have gen: "map_option (map status) (clipsOf (heap (snd exPlanned)) (storyboards (snd exPlanned) ! 1))
        = Some [Generating, Generating, Generating]"
    unfolding clips by (simp add: placeholderClip_def)
  show ?thesis using ok todo aid gen out loop whole by simp
qed

subsection \<open>The history stack\<close>

text \<open>
  What the stack does under actions that rebuild the node collection: a save appends
  the collection and keeps at most 20 entries, dropping the oldest; an undo right after
  an action (a rename, a disconnect, a delete, a paste, a connect that commits) gives
  back the collection, the same node objects over an unchanged store;
  after up to 20 actions as many undos lead back to the collection before the first of
  them; after 21 actions the stack holds the collections before the last 20, twenty undos
  lead to the collection after the first action, and a further undo changes nothing.
\<close>

lemma handleRenameNode_guarded:
  "handleRenameNode nodeId newTitle =
     guarded (map (\<lambda>g. if sg_id g = nodeId then g\<lparr>title := newTitle\<rparr> else g))"
  by (rule ext) (simp add: handleRenameNode_def guarded_def Let_def)

lemma handleDisconnect_guarded:
  "handleDisconnect a b = guarded (map (disconnectGroup a b))"
  by (rule ext) (simp add: handleDisconnect_def guarded_def Let_def)

lemma history_saveHistory:
  "history (saveHistory st) =
     (if length (history st) < 20 then history st @ [storyboards st]
      else tl (history st @ [storyboards st]))"
  by (simp add: saveHistory_def Let_def)

lemma saveHistory_cap:
  "length (history st) \<le> 20 \<Longrightarrow> length (history (saveHistory st)) \<le> 20"
  by (simp add: history_saveHistory)

lemma saveHistory_fifo:
  "length (history st) = 20 \<Longrightarrow>
   history (saveHistory st) = tl (history st) @ [storyboards st]"
  by (cases "history st") (simp_all add: history_saveHistory)

lemma history_guarded [simp]: "history (guarded f st) = history (saveHistory st)"
  by (simp add: guarded_def)

lemma storyboards_guarded [simp]: "storyboards (guarded f st) = f (storyboards st)"
  by (simp add: guarded_def)

lemma heap_guarded [simp]: "heap (guarded f st) = heap st"
  by (simp add: guarded_def saveHistory_def Let_def)

lemma saveHistory_last:
  "history (saveHistory st) \<noteq> [] \<and> last (history (saveHistory st)) = storyboards st"
  by (cases "history st") (simp_all add: history_saveHistory)

lemma undo_guarded:
  "storyboards (handleUndo (guarded f st)) = storyboards st
   \<and> heap (handleUndo (guarded f st)) = heap st
   \<and> (length (history st) < 20 \<longrightarrow> history (handleUndo (guarded f st)) = history st)"
  using saveHistory_last [of st] by (simp add: handleUndo_def history_saveHistory)

lemma undo_after_save:
  "history st' = history (saveHistory st) \<Longrightarrow>
   storyboards (handleUndo st') = storyboards st \<and> heap (handleUndo st') = heap st'"
  using saveHistory_last [of st] by (simp add: handleUndo_def)

lemma undo_handleDeleteNode:
  "storyboards (handleUndo (handleDeleteNode x st)) = storyboards st
   \<and> heap (handleUndo (handleDeleteNode x st)) = heap st"
proof -
  have "history (handleDeleteNode x st) = history (saveHistory st)"
    and "heap (handleDeleteNode x st) = heap st"
    by (simp_all add: handleDeleteNode_def Let_def saveHistory_def)
  then show ?thesis using undo_after_save [of "handleDeleteNode x st" st] by simp
qed

lemma undo_handlePaste:
  "clipboard st = Some cb \<Longrightarrow>
   storyboards (handleUndo (handlePaste uuid now st)) = storyboards st
   \<and> heap (handleUndo (handlePaste uuid now st)) = heap st"
proof -
  assume "clipboard st = Some cb"
  then have "history (handlePaste uuid now st) = history (saveHistory st)"
    and "heap (handlePaste uuid now st) = heap st"
    by (simp_all add: handlePaste_def Let_def randomUUID_def saveHistory_def)
  then show ?thesis using undo_after_save [of "handlePaste uuid now st" st] by simp
qed

lemma undo_handleConnect:
  "handleConnect a b st \<noteq> st \<Longrightarrow>
   storyboards (handleUndo (handleConnect a b st)) = storyboards st
   \<and> heap (handleUndo (handleConnect a b st)) = heap st"
proof -
  assume changed: "handleConnect a b st \<noteq> st"
  then have ne: "a \<noteq> b"
    and nc: "\<not> (case findNode a (storyboards st) of None \<Rightarrow> False | Some s \<Rightarrow> b \<in> set (connections s))"
    using handleConnect_reject [of a b st] by auto
  have "history (handleConnect a b st) = history (saveHistory st)"
    and "heap (handleConnect a b st) = heap st"
    unfolding handleConnect_commit [OF ne nc] by (simp_all add: saveHistory_def Let_def)
  then show ?thesis using undo_after_save [of "handleConnect a b st" st] by simp
qed

lemma length_snapshots [simp]: "length (snapshots fs sb) = length fs"
  by (induction fs arbitrary: sb) simp_all

lemma history_runGuarded:
  "length (history st) \<le> 20 \<Longrightarrow>
   history (runGuarded fs st) =
     drop (length (history st) + length fs - 20) (history st @ snapshots fs (storyboards st))"
proof (induction fs arbitrary: st)
  case Nil
  then show ?case by simp
next
  case (Cons f fs)
  let ?st1 = "guarded f st"
  let ?h = "history st" and ?sb = "storyboards st"
  have cap1: "length (history ?st1) \<le> 20" using Cons.prems by (simp add: saveHistory_cap)
  have sb1: "storyboards ?st1 = f ?sb" by simp
  have "history (runGuarded (f # fs) st) = history (runGuarded fs ?st1)" by simp
  also have "\<dots> = drop (length (history ?st1) + length fs - 20)
                      (history ?st1 @ snapshots fs (f ?sb))"
    using Cons.IH [OF cap1] unfolding sb1 .
  also have "\<dots> = drop (length ?h + length (f # fs) - 20) (?h @ snapshots (f # fs) ?sb)"
  proof (cases "length ?h < 20")
    case True
    then have h1: "history ?st1 = ?h @ [?sb]"
      by (simp add: history_saveHistory)
    show ?thesis unfolding h1 by (simp del: drop_append)
  next
    case False
    then have l: "length ?h = 20" using Cons.prems by simp
    then have h1: "history ?st1 = tl ?h @ [?sb]"
      by (simp add: saveHistory_fifo)
    have ne: "?h \<noteq> []" using l by auto
    have "drop (length ?h + length (f # fs) - 20) (?h @ snapshots (f # fs) ?sb)
        = drop (Suc (length fs)) (?h @ ?sb # snapshots fs (f ?sb))"
      using l by simp
    also have "\<dots> = drop (length fs) (tl (?h @ ?sb # snapshots fs (f ?sb)))"
      by (simp only: drop_Suc)
    also have "\<dots> = drop (length fs) (tl ?h @ ?sb # snapshots fs (f ?sb))"
      using ne by simp
    finally have rhs: "drop (length ?h + length (f # fs) - 20) (?h @ snapshots (f # fs) ?sb)
        = drop (length fs) (tl ?h @ ?sb # snapshots fs (f ?sb))" .
    have "drop (length (history ?st1) + length fs - 20) (history ?st1 @ snapshots fs (f ?sb))
        = drop (length fs) (tl ?h @ ?sb # snapshots fs (f ?sb))"
      unfolding h1 using l by (simp del: drop_append)
    then show ?thesis using rhs by simp
  qed
  finally show ?case .
qed

lemma undo_n:
  "n \<le> length (history st) \<Longrightarrow>
   history ((handleUndo ^^ n) st) = take (length (history st) - n) (history st)
   \<and> heap ((handleUndo ^^ n) st) = heap st
   \<and> (0 < n \<longrightarrow> storyboards ((handleUndo ^^ n) st) = history st ! (length (history st) - n))"
proof (induction n)
  case 0
  then show ?case by simp
next
  case (Suc n)
  let ?s = "(handleUndo ^^ n) st"
  let ?h = "history st"
  from Suc have h: "history ?s = take (length ?h - n) ?h" and hp: "heap ?s = heap st" by simp_all
  have ne: "history ?s \<noteq> []" using Suc.prems h by auto
  have step: "handleUndo ?s =
      ?s\<lparr>storyboards := last (history ?s), history := butlast (history ?s)\<rparr>"
    using ne by (simp add: handleUndo_def)
  have pos: "length ?h - n = Suc (length ?h - Suc n)" using Suc.prems by simp
  have "last (history ?s) = ?h ! (length ?h - Suc n)"
    unfolding h pos using Suc.prems by (simp add: take_Suc_conv_app_nth)
  moreover have "butlast (history ?s) = take (length ?h - Suc n) ?h"
    unfolding h pos using Suc.prems by (simp add: take_Suc_conv_app_nth)
  ultimately show ?case using hp by (simp add: step)
qed

lemma undo_restores_upto_20:
  assumes "length (history st) \<le> 20" and "0 < length fs" and "length fs \<le> 20"
  shows "storyboards ((handleUndo ^^ length fs) (runGuarded fs st)) = storyboards st"
proof -
  let ?h = "history st" and ?n = "length fs"
  let ?all = "?h @ snapshots fs (storyboards st)"
  let ?d = "length ?h + ?n - 20"
  have H: "history (runGuarded fs st) = drop ?d ?all"
    using assms(1) by (rule history_runGuarded)
  have lenH: "length (drop ?d ?all) = length ?h + ?n - ?d" by simp
  have n_le: "?n \<le> length (history (runGuarded fs st))"
    unfolding H lenH using assms by simp
  from undo_n [OF n_le] assms(2) have
    "storyboards ((handleUndo ^^ ?n) (runGuarded fs st))
       = history (runGuarded fs st) ! (length (history (runGuarded fs st)) - ?n)"
    by simp
  also have "\<dots> = drop ?d ?all ! (length ?h - ?d)"
    unfolding H lenH using assms by simp
  also have "\<dots> = ?all ! (?d + (length ?h - ?d))"
    by (rule nth_drop) simp
  also have "\<dots> = ?all ! (length ?h)"
    using assms by simp
  also have "\<dots> = snapshots fs (storyboards st) ! 0"
    by (simp add: nth_append)
  also have "\<dots> = storyboards st"
    using assms(2) by (cases fs) simp_all
  finally show ?thesis .
qed

lemma undo_loses_21st:
  assumes "length (history st) \<le> 20" and "fs = f # fs'" and "length fs' = 20"
  shows "history (runGuarded fs st) = snapshots fs' (f (storyboards st))
       \<and> storyboards ((handleUndo ^^ 20) (runGuarded fs st)) = f (storyboards st)
       \<and> history ((handleUndo ^^ 20) (runGuarded fs st)) = []
       \<and> handleUndo ((handleUndo ^^ 20) (runGuarded fs st)) = (handleUndo ^^ 20) (runGuarded fs st)"
proof -
  let ?h = "history st"
  have H0: "history (runGuarded fs st) = drop (length ?h + 21 - 20) (?h @ snapshots fs (storyboards st))"
    using history_runGuarded [OF assms(1), of fs] assms(2,3) by simp
  have H: "history (runGuarded fs st) = snapshots fs' (f (storyboards st))"
    unfolding H0 using assms(2) by simp
  have len: "length (history (runGuarded fs st)) = 20" unfolding H using assms(3) by simp
  have n_le: "20 \<le> length (history (runGuarded fs st))" using len by simp
  from undo_n [OF n_le] have
    u: "history ((handleUndo ^^ 20) (runGuarded fs st)) = []"
       "storyboards ((handleUndo ^^ 20) (runGuarded fs st)) = history (runGuarded fs st) ! 0"
    using len by simp_all
  have first: "snapshots fs' (f (storyboards st)) ! 0 = f (storyboards st)"
    using assms(3) by (cases fs') simp_all
  have noop: "handleUndo ((handleUndo ^^ 20) (runGuarded fs st)) = (handleUndo ^^ 20) (runGuarded fs st)"
    using u(1) by (simp add: handleUndo_def)
  show ?thesis using H u first noop by simp
qed

subsection \<open>Undo\<close>

text \<open>
  Claim C10. Undo with an empty history stack is a no-op: the whole application state,
  and so both the history stack and the node collection, is returned unchanged.
\<close>

theorem undo_empty_history_noop:
  "history st = [] \<Longrightarrow> handleUndo st = st"
  by (simp add: handleUndo_def)

theorem undo_empty_history_noop_witness:
  "history (mkApp exGraph) = [] \<and> handleUndo (mkApp exGraph) = mkApp exGraph"
  using undo_empty_history_noop [of "mkApp exGraph"] by (simp add: mkApp_def)

subsection \<open>Undo after an import\<close>

text \<open>
  Claim C4 at an action that pushes on a shared array. The timeline \<open>t\<close> holds no
  clip and is fed by the video node \<open>v\<close>, which holds one video.
  \<^verbatim>\<open>handleImportVideosToTimeline\<close> saves the history and then pushes the imported clip
  on the clip array of the node it found in the state, the array that the snapshot just
  taken reaches too. Undo puts the snapshot back, node for node, and the stack is empty
  again, but the timeline of the restored collection shows the imported clip: the node
  collection after the undo and the one before the action are not deeply equal.
\<close>

theorem undo_after_import_keeps_clips:
  "clipsOf (heap exImportApp) (storyboards exImportApp ! 1) = Some []
   \<and> history exImported = [storyboards exImportApp]
   \<and> storyboards (handleUndo exImported) = storyboards exImportApp
   \<and> history (handleUndo exImported) = []
   \<and> map_option (map videoUrl)
        (clipsOf (heap (handleUndo exImported)) (storyboards (handleUndo exImported) ! 1))
      = Some [''blob:v1'']"
  by (simp add: exImported_def handleImportVideosToTimeline_def exImportApp_def handleUndo_def
        saveHistory_def mkApp_def mkNode_def mkItem_def findNode_def emptyConfig_def clipsRef_def
        clipsOf_def exUuid_def showNat.simps digitChar_def pushClip_def importedClip_def
        configOrEmpty_def)

end
